theory Spec2Isabelle
  imports Complex_Main
begin

section \<open>Python values used by pyowm/utils/measurables.py\<close>

text \<open>
  The module works on Python numbers (\<open>int\<close>, \<open>float\<close>) and on \<open>None\<close>, stored in
  dictionaries with string keys. A Python \<open>float\<close> is an IEEE 754 binary64 number; it is
  modelled by the exact rational it denotes, or by one of the three special values.
  The two zeros are identified: no operation of this module tells them apart
  (Python's \<open>==\<close> does not either). Comparisons with \<open>None\<close> follow Python 3 and
  raise \<open>TypeError\<close>.
\<close>

datatype pyfloat = Finite rat | PInf | NInf | NaN

datatype pyval = PNone | PInt int | PFloat pyfloat

datatype error = ValueError string | TypeError | OverflowError | ZeroDivisionError

type_synonym pydict = "(string \<times> pyval) list"

subsection \<open>Rounding a rational to binary64 (round to nearest, ties to even)\<close>

definition pow2 :: "int \<Rightarrow> rat" where
  "pow2 e = (if 0 \<le> e then 2 ^ nat e else 1 / 2 ^ nat (- e))"

function ilog2 :: "rat \<Rightarrow> int" where
  "ilog2 x = (if x \<le> 0 then 0
     else if 2 \<le> x then 1 + ilog2 (x / 2)
     else if x < 1 then ilog2 (2 * x) - 1
     else 0)"
  by pat_completeness auto
termination
proof (relation "measure (\<lambda>x. if 1 \<le> x then nat \<lfloor>x\<rfloor> else nat \<lceil>1 / x\<rceil>)")
  show "wf (measure (\<lambda>x. if 1 \<le> x then nat \<lfloor>x\<rfloor> else nat \<lceil>1 / x\<rceil>))" by simp
next
  fix x :: rat
  assume "\<not> x \<le> 0" and x: "2 \<le> x"
  have "x / 2 < of_int \<lfloor>x\<rfloor>"
  proof -
    have "x < of_int \<lfloor>x\<rfloor> + 1" by linarith
    moreover have "(2::rat) \<le> of_int \<lfloor>x\<rfloor>" using x by (simp add: le_floor_iff)
    ultimately show ?thesis by linarith
  qed
  then have "\<lfloor>x / 2\<rfloor> < \<lfloor>x\<rfloor>" by (simp add: floor_less_iff)
  moreover have "0 \<le> \<lfloor>x / 2\<rfloor>" using x by simp
  ultimately show "(x / 2, x) \<in> measure (\<lambda>x. if 1 \<le> x then nat \<lfloor>x\<rfloor> else nat \<lceil>1 / x\<rceil>)"
    using x by simp
next
  fix x :: rat
  assume pos: "\<not> x \<le> 0" and "\<not> 2 \<le> x" and x: "x < 1"
  have inv: "1 < 1 / x" using pos x by simp
  then have c2: "2 \<le> \<lceil>1 / x\<rceil>" by (simp add: le_ceiling_iff)
  show "(2 * x, x) \<in> measure (\<lambda>x. if 1 \<le> x then nat \<lfloor>x\<rfloor> else nat \<lceil>1 / x\<rceil>)"
  proof (cases "1 \<le> 2 * x")
    case True
    then have "\<lfloor>2 * x\<rfloor> = 1" using x by (simp add: floor_eq_iff)
    then show ?thesis using True x c2 by simp
  next
    case False
    have "1 / (2 * x) \<le> of_int \<lceil>1 / x\<rceil> - 1"
    proof -
      have "1 / x \<le> of_int \<lceil>1 / x\<rceil>" by linarith
      moreover have "1 / (2 * x) = (1 / x) / 2" by simp
      moreover have "(2::rat) \<le> of_int \<lceil>1 / x\<rceil>" using c2 by linarith
      ultimately show ?thesis by linarith
    qed
    then have "\<lceil>1 / (2 * x)\<rceil> \<le> \<lceil>1 / x\<rceil> - 1"
      unfolding ceiling_le_iff by simp
    moreover have "0 < x" using pos by simp
    ultimately show ?thesis using False x c2 by simp
  qed
qed

declare ilog2.simps [simp del]

definition round_half_even :: "rat \<Rightarrow> int" where
  "round_half_even x = (let f = \<lfloor>x\<rfloor>; d = x - of_int f
     in if d < 1 / 2 then f else if 1 / 2 < d then f + 1
        else if even f then f else f + 1)"

definition rnd :: "rat \<Rightarrow> pyfloat" where
  "rnd x = (if x = 0 then Finite 0 else
     (let a = \<bar>x\<bar>; e = max (ilog2 a) (- 1022); q = pow2 (e - 52);
          r = of_int (round_half_even (a / q)) * q
      in if pow2 1024 \<le> r then (if 0 < x then PInf else NInf)
         else Finite (if 0 < x then r else - r)))"

subsection \<open>Comparison of floats\<close>

fun fle :: "pyfloat \<Rightarrow> pyfloat \<Rightarrow> bool" where
  "fle NaN _ = False"
| "fle _ NaN = False"
| "fle NInf _ = True"
| "fle _ PInf = True"
| "fle (Finite x) (Finite y) = (x \<le> y)"
| "fle _ _ = False"

fun flt :: "pyfloat \<Rightarrow> pyfloat \<Rightarrow> bool" where
  "flt NaN _ = False"
| "flt _ NaN = False"
| "flt (Finite x) (Finite y) = (x < y)"
| "flt PInf _ = False"
| "flt _ NInf = False"
| "flt _ _ = True"

text \<open>
  The operand of a comparison with a number: Python compares an \<open>int\<close> with a
  \<open>float\<close> by exact value (no conversion, hence no overflow); \<open>None\<close> is not orderable.
\<close>

fun cmp_operand :: "pyval \<Rightarrow> error + pyfloat" where
  "cmp_operand PNone = Inl TypeError"
| "cmp_operand (PInt i) = Inr (Finite (of_int i))"
| "cmp_operand (PFloat f) = Inr f"

subsection \<open>Arithmetic of floats\<close>

text \<open>
  The operand of an arithmetic operation whose other operand is a \<open>float\<close>: an
  \<open>int\<close> is converted to the nearest \<open>float\<close>, which raises \<open>OverflowError\<close> from
  \<open>2^1024 - 2^970\<close> on (the first integer that rounds beyond the largest float);
  \<open>None\<close> raises \<open>TypeError\<close>.
\<close>

fun to_float :: "pyval \<Rightarrow> error + pyfloat" where
  "to_float PNone = Inl TypeError"
| "to_float (PInt i) =
     (if 2 ^ 1024 - 2 ^ 970 \<le> \<bar>i\<bar> then Inl OverflowError else Inr (rnd (of_int i)))"
| "to_float (PFloat f) = Inr f"

fun fneg :: "pyfloat \<Rightarrow> pyfloat" where
  "fneg (Finite x) = Finite (- x)"
| "fneg PInf = NInf"
| "fneg NInf = PInf"
| "fneg NaN = NaN"

fun fadd :: "pyfloat \<Rightarrow> pyfloat \<Rightarrow> pyfloat" where
  "fadd NaN _ = NaN"
| "fadd _ NaN = NaN"
| "fadd (Finite x) (Finite y) = rnd (x + y)"
| "fadd PInf NInf = NaN"
| "fadd NInf PInf = NaN"
| "fadd PInf _ = PInf"
| "fadd NInf _ = NInf"
| "fadd _ b = b"

definition fsub :: "pyfloat \<Rightarrow> pyfloat \<Rightarrow> pyfloat" where
  "fsub a b = fadd a (fneg b)"

fun fsign :: "pyfloat \<Rightarrow> int" where
  "fsign (Finite x) = (if 0 < x then 1 else if x < 0 then - 1 else 0)"
| "fsign PInf = 1"
| "fsign NInf = - 1"
| "fsign NaN = 0"

definition signed_inf :: "int \<Rightarrow> pyfloat" where
  "signed_inf s = (if 0 < s then PInf else if s < 0 then NInf else NaN)"

fun fmul :: "pyfloat \<Rightarrow> pyfloat \<Rightarrow> pyfloat" where
  "fmul NaN _ = NaN"
| "fmul _ NaN = NaN"
| "fmul (Finite x) (Finite y) = rnd (x * y)"
| "fmul a b = signed_inf (fsign a * fsign b)"

text \<open>Division of floats; Python raises on a zero divisor.\<close>

fun fdiv :: "pyfloat \<Rightarrow> pyfloat \<Rightarrow> error + pyfloat" where
  "fdiv a (Finite y) =
     (if y = 0 then Inl ZeroDivisionError
      else Inr (case a of
                  Finite x \<Rightarrow> rnd (x / y)
                | NaN \<Rightarrow> NaN
                | _ \<Rightarrow> signed_inf (fsign a * fsign (Finite y))))"
| "fdiv NaN _ = Inr NaN"
| "fdiv _ NaN = Inr NaN"
| "fdiv (Finite x) _ = Inr (Finite 0)"
| "fdiv _ _ = Inr NaN"

text \<open>
  \<open>round(x, ndigits)\<close> on a float, for \<open>ndigits \<ge> 0\<close>: the nearest decimal with that
  many places (ties to even, on the exact value), then the nearest float.
\<close>

fun py_round :: "pyfloat \<Rightarrow> nat \<Rightarrow> pyfloat" where
  "py_round (Finite x) n = rnd (of_int (round_half_even (x * 10 ^ n)) / 10 ^ n)"
| "py_round f n = f"

subsection \<open>Formatting a float with two decimals, and reading it back\<close>

definition digit_char :: "nat \<Rightarrow> char" where
  "digit_char n = char_of (48 + n)"

function digits :: "nat \<Rightarrow> string" where
  "digits n = (if n < 10 then [digit_char n] else digits (n div 10) @ [digit_char (n mod 10)])"
  by pat_completeness auto
termination
  by (relation "measure id") auto

declare digits.simps [simp del]

text \<open>\<open>"{0:.2f}".format(x)\<close> for a float \<open>x\<close>.\<close>

fun format_2f :: "pyfloat \<Rightarrow> string" where
  "format_2f NaN = ''nan''"
| "format_2f PInf = ''inf''"
| "format_2f NInf = ''-inf''"
| "format_2f (Finite x) =
     (let n = nat \<bar>round_half_even (x * 100)\<bar>
      in (if x < 0 then ''-'' else []) @ digits (n div 100) @ ''.'' @
         [digit_char (n mod 100 div 10), digit_char (n mod 10)])"

definition is_digit :: "char \<Rightarrow> bool" where
  "is_digit c = (48 \<le> (of_char c :: nat) \<and> (of_char c :: nat) \<le> 57)"

definition digit_val :: "char \<Rightarrow> nat" where
  "digit_val c = of_char c - 48"

definition read_nat :: "string \<Rightarrow> nat" where
  "read_nat s = foldl (\<lambda>a c. 10 * a + digit_val c) 0 s"

text \<open>
  \<open>float(s)\<close> on the strings that the format above produces: \<open>nan\<close>, \<open>inf\<close>,
  \<open>-inf\<close>, and an optional minus sign, digits, a point and digits. Every other string
  is reported as the \<open>ValueError\<close> of a malformed number; the module passes none.
\<close>

definition float_of_str :: "string \<Rightarrow> error + pyfloat" where
  "float_of_str s =
     (if s = ''nan'' then Inr NaN
      else if s = ''inf'' then Inr PInf
      else if s = ''-inf'' then Inr NInf
      else
        (let neg = (s \<noteq> [] \<and> hd s = CHR ''-'');
             body = (if neg then tl s else s);
             ip = takeWhile is_digit body;
             rest = dropWhile is_digit body
         in if ip \<noteq> [] \<and> rest \<noteq> [] \<and> hd rest = CHR ''.'' \<and> tl rest \<noteq> [] \<and>
               list_all is_digit (tl rest)
            then
              (let fp = tl rest;
                   m = of_nat (read_nat ip) + of_nat (read_nat fp) / 10 ^ length fp
               in Inr (rnd (if neg then - m else m)))
            else Inl (ValueError ''could not convert string to float'')))"

subsection \<open>Dictionaries and the heap of dictionary objects\<close>

text \<open>
  A dictionary is the list of its items in insertion order, keys distinct.
  \<open>dict_set\<close> is the assignment \<open>result[key] = value\<close>. Dictionaries are objects:
  a function receives and returns a reference into a heap of dictionaries, and
  \<open>dict()\<close> or a comprehension allocates a fresh one. The result dictionary is
  local to the call until it is returned: the model puts it into the heap at the
  return, and a call that raises leaves the heap of its caller as it was.
\<close>

fun dict_set :: "pydict \<Rightarrow> string \<Rightarrow> pyval \<Rightarrow> pydict" where
  "dict_set [] k v = [(k, v)]"
| "dict_set ((k', v') # r) k v =
     (if k' = k then (k', v) # r else (k', v') # dict_set r k v)"

type_synonym ref = nat

type_synonym heap = "pydict list"

definition alloc :: "heap \<Rightarrow> pydict \<Rightarrow> ref \<times> heap" where
  "alloc h d = (length h, h @ [d])"

text \<open>
  The loop \<open>for key, value in d.items(): body\<close>: the body updates the result
  dictionary, or raises, which ends the loop with the error.
\<close>

fun for_items :: "(string \<Rightarrow> pyval \<Rightarrow> pydict \<Rightarrow> error + pydict) \<Rightarrow>
    (string \<times> pyval) list \<Rightarrow> pydict \<Rightarrow> error + pydict" where
  "for_items body [] result = Inr result"
| "for_items body ((key, val) # items) result =
     (case body key val result of
        Inl e \<Rightarrow> Inl e
      | Inr result' \<Rightarrow> for_items body items result')"

section \<open>Wind speed: the Beaufort scale\<close>

definition beaufort_level :: "pyfloat \<Rightarrow> int" where
  "beaufort_level v =
    (if fle v (rnd (2 / 10)) then 0
     else if flt (rnd (2 / 10)) v \<and> fle v (rnd (15 / 10)) then 1
     else if flt (rnd (15 / 10)) v \<and> fle v (rnd (33 / 10)) then 2
     else if flt (rnd (33 / 10)) v \<and> fle v (rnd (54 / 10)) then 3
     else if flt (rnd (54 / 10)) v \<and> fle v (rnd (79 / 10)) then 4
     else if flt (rnd (79 / 10)) v \<and> fle v (rnd (107 / 10)) then 5
     else if flt (rnd (107 / 10)) v \<and> fle v (rnd (138 / 10)) then 6
     else if flt (rnd (138 / 10)) v \<and> fle v (rnd (171 / 10)) then 7
     else if flt (rnd (171 / 10)) v \<and> fle v (rnd (207 / 10)) then 8
     else if flt (rnd (207 / 10)) v \<and> fle v (rnd (244 / 10)) then 9
     else if flt (rnd (244 / 10)) v \<and> fle v (rnd (284 / 10)) then 10
     else if flt (rnd (284 / 10)) v \<and> fle v (rnd (326 / 10)) then 11
     else 12)"

definition beaufort_body :: "string \<Rightarrow> pyval \<Rightarrow> pydict \<Rightarrow> error + pydict" where
  "beaufort_body key val result =
     (if key \<noteq> ''deg'' then
        (case cmp_operand val of
           Inl e \<Rightarrow> Inl e
         | Inr x \<Rightarrow> Inr (dict_set result key (PInt (beaufort_level x))))
      else Inr (dict_set result key val))"

definition metric_wind_dict_to_beaufort :: "heap \<Rightarrow> ref \<Rightarrow> error + ref \<times> heap" where
  "metric_wind_dict_to_beaufort h d =
     (case for_items beaufort_body (h ! d) [] of
        Inl e \<Rightarrow> Inl e
      | Inr result \<Rightarrow> Inr (alloc h result))"

text \<open>
  The table of the specification: the twelve upper bounds (float literals) with their
  levels; a speed gets the level of the first bound it does not exceed, and level 12
  when it exceeds them all.
\<close>

definition beaufort_table :: "(pyfloat \<times> int) list" where
  "beaufort_table =
     [(rnd (2 / 10), 0), (rnd (15 / 10), 1), (rnd (33 / 10), 2), (rnd (54 / 10), 3),
      (rnd (79 / 10), 4), (rnd (107 / 10), 5), (rnd (138 / 10), 6), (rnd (171 / 10), 7),
      (rnd (207 / 10), 8), (rnd (244 / 10), 9), (rnd (284 / 10), 10), (rnd (326 / 10), 11)]"

fun table_lookup :: "(pyfloat \<times> int) list \<Rightarrow> pyfloat \<Rightarrow> int" where
  "table_lookup [] v = 12"
| "table_lookup ((b, l) # t) v = (if fle v b then l else table_lookup t v)"

fun num :: "pyval \<Rightarrow> pyfloat" where
  "num (PInt i) = Finite (of_int i)"
| "num (PFloat f) = f"
| "num PNone = NaN"

section \<open>Temperature\<close>

definition KELVIN_OFFSET :: pyfloat where
  "KELVIN_OFFSET = rnd (27315 / 100)"

definition FAHRENHEIT_OFFSET :: pyfloat where
  "FAHRENHEIT_OFFSET = rnd 32"

definition FAHRENHEIT_DEGREE_SCALE :: pyfloat where
  "FAHRENHEIT_DEGREE_SCALE = rnd (18 / 10)"

definition name_of_module :: string where
  "name_of_module = ''pyowm.utils.measurables''"

definition negative_temperature :: error where
  "negative_temperature = ValueError (name_of_module @ '': negative temperature values not allowed'')"

definition kelvin_to_celsius :: "pyval \<Rightarrow> error + pyval" where
  "kelvin_to_celsius kelvintemp =
     (case cmp_operand kelvintemp of
        Inl e \<Rightarrow> Inl e
      | Inr x \<Rightarrow>
          if flt x (Finite 0) then Inl negative_temperature
          else
            (case to_float kelvintemp of
               Inl e \<Rightarrow> Inl e
             | Inr k \<Rightarrow>
                 (let celsiustemp = fsub k KELVIN_OFFSET
                  in case float_of_str (format_2f celsiustemp) of
                       Inl e \<Rightarrow> Inl e
                     | Inr r \<Rightarrow> Inr (PFloat r))))"

definition kelvin_to_fahrenheit :: "pyval \<Rightarrow> error + pyval" where
  "kelvin_to_fahrenheit kelvintemp =
     (case cmp_operand kelvintemp of
        Inl e \<Rightarrow> Inl e
      | Inr x \<Rightarrow>
          if flt x (Finite 0) then Inl negative_temperature
          else
            (case to_float kelvintemp of
               Inl e \<Rightarrow> Inl e
             | Inr k \<Rightarrow>
                 (let fahrenheittemp =
                        fadd (fmul (fsub k KELVIN_OFFSET) FAHRENHEIT_DEGREE_SCALE) FAHRENHEIT_OFFSET
                  in case float_of_str (format_2f fahrenheittemp) of
                       Inl e \<Rightarrow> Inl e
                     | Inr r \<Rightarrow> Inr (PFloat r))))"

definition invalid_temperature_unit :: error where
  "invalid_temperature_unit =
     ValueError (''Invalid value for target temperature conversion '' @ replicate 25 CHR '' '' @ ''unit'')"

text \<open>
  The comprehension \<open>{key: f(d[key]) for key in d}\<close>: a fresh dictionary filled key
  by key; \<open>d[key]\<close> is the value of the item.
\<close>

definition comprehension_body :: "(pyval \<Rightarrow> error + pyval) \<Rightarrow>
    string \<Rightarrow> pyval \<Rightarrow> pydict \<Rightarrow> error + pydict" where
  "comprehension_body f key val result =
     (case f val of Inl e \<Rightarrow> Inl e | Inr w \<Rightarrow> Inr (dict_set result key w))"

definition kelvin_dict_to :: "heap \<Rightarrow> ref \<Rightarrow> string \<Rightarrow> error + ref \<times> heap" where
  "kelvin_dict_to h d target_temperature_unit =
     (if target_temperature_unit = ''kelvin'' then Inr (d, h)
      else if target_temperature_unit = ''celsius'' then
        (case for_items (comprehension_body kelvin_to_celsius) (h ! d) [] of
           Inl e \<Rightarrow> Inl e
         | Inr result \<Rightarrow> Inr (alloc h result))
      else if target_temperature_unit = ''fahrenheit'' then
        (case for_items (comprehension_body kelvin_to_fahrenheit) (h ! d) [] of
           Inl e \<Rightarrow> Inl e
         | Inr result \<Rightarrow> Inr (alloc h result))
      else Inl invalid_temperature_unit)"

section \<open>Wind speed: miles per hour, kilometres per hour, knots\<close>

definition MILES_PER_HOUR_FOR_ONE_METER_PER_SEC :: pyfloat where
  "MILES_PER_HOUR_FOR_ONE_METER_PER_SEC = rnd (223694 / 100000)"

definition KM_PER_HOUR_FOR_ONE_METER_PER_SEC :: pyfloat where
  "KM_PER_HOUR_FOR_ONE_METER_PER_SEC = rnd (36 / 10)"

definition KNOTS_FOR_ONE_METER_PER_SEC :: pyfloat where
  "KNOTS_FOR_ONE_METER_PER_SEC = rnd (194384 / 100000)"

text \<open>\<open>value * c\<close> for a float constant \<open>c\<close>.\<close>

definition py_mul :: "pyval \<Rightarrow> pyfloat \<Rightarrow> error + pyfloat" where
  "py_mul v c = (case to_float v of Inl e \<Rightarrow> Inl e | Inr x \<Rightarrow> Inr (fmul x c))"

definition wind_body :: "pyfloat \<Rightarrow> string \<Rightarrow> pyval \<Rightarrow> pydict \<Rightarrow> error + pydict" where
  "wind_body c key val result =
     (if key \<noteq> ''deg'' then
        (case py_mul val c of
           Inl e \<Rightarrow> Inl e
         | Inr w \<Rightarrow> Inr (dict_set result key (PFloat w)))
      else Inr (dict_set result key val))"

definition metric_wind_dict_to_imperial :: "heap \<Rightarrow> ref \<Rightarrow> error + ref \<times> heap" where
  "metric_wind_dict_to_imperial h d =
     (case for_items (wind_body MILES_PER_HOUR_FOR_ONE_METER_PER_SEC) (h ! d) [] of
        Inl e \<Rightarrow> Inl e
      | Inr result \<Rightarrow> Inr (alloc h result))"

definition metric_wind_dict_to_km_h :: "heap \<Rightarrow> ref \<Rightarrow> error + ref \<times> heap" where
  "metric_wind_dict_to_km_h h d =
     (case for_items (wind_body KM_PER_HOUR_FOR_ONE_METER_PER_SEC) (h ! d) [] of
        Inl e \<Rightarrow> Inl e
      | Inr result \<Rightarrow> Inr (alloc h result))"

definition metric_wind_dict_to_knots :: "heap \<Rightarrow> ref \<Rightarrow> error + ref \<times> heap" where
  "metric_wind_dict_to_knots h d =
     (case for_items (wind_body KNOTS_FOR_ONE_METER_PER_SEC) (h ! d) [] of
        Inl e \<Rightarrow> Inl e
      | Inr result \<Rightarrow> Inr (alloc h result))"

section \<open>Barometric pressure and visibility\<close>

definition HPA_FOR_ONE_INHG :: pyfloat where
  "HPA_FOR_ONE_INHG = rnd (338639 / 10000)"

definition MILE_FOR_ONE_METER :: pyfloat where
  "MILE_FOR_ONE_METER = rnd (621371 / 1000000000)"

definition KMS_FOR_ONE_METER :: pyfloat where
  "KMS_FOR_ONE_METER = rnd (1 / 1000)"

definition ROUNDED_TO :: nat where
  "ROUNDED_TO = 2"

text \<open>\<open>value / c\<close> for a float constant \<open>c\<close>.\<close>

definition py_div :: "pyval \<Rightarrow> pyfloat \<Rightarrow> error + pyfloat" where
  "py_div v c = (case to_float v of Inl e \<Rightarrow> Inl e | Inr x \<Rightarrow> fdiv x c)"

definition pressure_body :: "string \<Rightarrow> pyval \<Rightarrow> pydict \<Rightarrow> error + pydict" where
  "pressure_body key val result =
     (if val = PNone then Inr result
      else
        (case py_div val HPA_FOR_ONE_INHG of
           Inl e \<Rightarrow> Inl e
         | Inr q \<Rightarrow> Inr (dict_set result key (PFloat (py_round q ROUNDED_TO)))))"

definition metric_pressure_dict_to_inhg :: "heap \<Rightarrow> ref \<Rightarrow> error + ref \<times> heap" where
  "metric_pressure_dict_to_inhg h d =
     (case for_items pressure_body (h ! d) [] of
        Inl e \<Rightarrow> Inl e
      | Inr result \<Rightarrow> Inr (alloc h result))"

definition invalid_visibility_unit :: error where
  "invalid_visibility_unit = ValueError ''Invalid value for target visibility unit''"

definition visibility_body :: "pyfloat \<Rightarrow> string \<Rightarrow> pyval \<Rightarrow> pydict \<Rightarrow> error + pydict" where
  "visibility_body const key val result =
     (if val = PNone then Inr result
      else
        (case py_mul val const of
           Inl e \<Rightarrow> Inl e
         | Inr p \<Rightarrow> Inr (dict_set result key (PFloat (py_round p ROUNDED_TO)))))"

definition visibility_dict_to :: "heap \<Rightarrow> ref \<Rightarrow> string \<Rightarrow> error + ref \<times> heap" where
  "visibility_dict_to h d target_visibility_unit =
     (if target_visibility_unit = ''miles'' then
        (case for_items (visibility_body MILE_FOR_ONE_METER) (h ! d) [] of
           Inl e \<Rightarrow> Inl e
         | Inr result \<Rightarrow> Inr (alloc h result))
      else if target_visibility_unit = ''kms'' then
        (case for_items (visibility_body KMS_FOR_ONE_METER) (h ! d) [] of
           Inl e \<Rightarrow> Inl e
         | Inr result \<Rightarrow> Inr (alloc h result))
      else Inl invalid_visibility_unit)"

text \<open>The call \<open>visibility_dict_to(d)\<close>: the unit defaults to \<open>'miles'\<close>.\<close>

definition visibility_dict_to_default :: "heap \<Rightarrow> ref \<Rightarrow> error + ref \<times> heap" where
  "visibility_dict_to_default h d = visibility_dict_to h d ''miles''"

section \<open>The calls on the store, and Python's equality of results\<close>

text \<open>
  The dictionary conversions once more, as they run on the store of dictionary objects:
  \<open>result = dict()\<close> (or the comprehension) allocates an empty dictionary, every
  \<open>result[key] = ...\<close> updates that object in place, the input \<open>d\<close> is only read, and
  \<open>return result\<close> hands the reference back. A call that raises leaves the store with
  what it had built. The outcome of a call is a reference or an error, with the store
  after the call.
\<close>

fun for_items_store :: "(string \<Rightarrow> pyval \<Rightarrow> pydict \<Rightarrow> error + pydict) \<Rightarrow>
    (string \<times> pyval) list \<Rightarrow> ref \<Rightarrow> heap \<Rightarrow> error option \<times> heap" where
  "for_items_store body [] result h = (None, h)"
| "for_items_store body ((key, val) # items) result h =
     (case body key val (h ! result) of
        Inl e \<Rightarrow> (Some e, h)
      | Inr r \<Rightarrow> for_items_store body items result (h[result := r]))"

definition run_loop :: "(string \<Rightarrow> pyval \<Rightarrow> pydict \<Rightarrow> error + pydict) \<Rightarrow>
    heap \<Rightarrow> ref \<Rightarrow> ref \<Rightarrow> (error + ref) \<times> heap" where
  "run_loop body h d result =
     (case for_items_store body (h ! d) result h of
        (Some e, h') \<Rightarrow> (Inl e, h')
      | (None, h') \<Rightarrow> (Inr result, h'))"

definition kelvin_dict_to_store :: "heap \<Rightarrow> ref \<Rightarrow> string \<Rightarrow> (error + ref) \<times> heap" where
  "kelvin_dict_to_store h d target_temperature_unit =
     (if target_temperature_unit = ''kelvin'' then (Inr d, h)
      else if target_temperature_unit = ''celsius'' then
        (case alloc h [] of
           (result, h1) \<Rightarrow> run_loop (comprehension_body kelvin_to_celsius) h1 d result)
      else if target_temperature_unit = ''fahrenheit'' then
        (case alloc h [] of
           (result, h1) \<Rightarrow> run_loop (comprehension_body kelvin_to_fahrenheit) h1 d result)
      else (Inl invalid_temperature_unit, h))"

definition metric_wind_dict_to_imperial_store :: "heap \<Rightarrow> ref \<Rightarrow> (error + ref) \<times> heap" where
  "metric_wind_dict_to_imperial_store h d =
     (case alloc h [] of
        (result, h1) \<Rightarrow> run_loop (wind_body MILES_PER_HOUR_FOR_ONE_METER_PER_SEC) h1 d result)"

definition metric_wind_dict_to_km_h_store :: "heap \<Rightarrow> ref \<Rightarrow> (error + ref) \<times> heap" where
  "metric_wind_dict_to_km_h_store h d =
     (case alloc h [] of
        (result, h1) \<Rightarrow> run_loop (wind_body KM_PER_HOUR_FOR_ONE_METER_PER_SEC) h1 d result)"

definition metric_wind_dict_to_knots_store :: "heap \<Rightarrow> ref \<Rightarrow> (error + ref) \<times> heap" where
  "metric_wind_dict_to_knots_store h d =
     (case alloc h [] of
        (result, h1) \<Rightarrow> run_loop (wind_body KNOTS_FOR_ONE_METER_PER_SEC) h1 d result)"

definition metric_wind_dict_to_beaufort_store :: "heap \<Rightarrow> ref \<Rightarrow> (error + ref) \<times> heap" where
  "metric_wind_dict_to_beaufort_store h d =
     (case alloc h [] of (result, h1) \<Rightarrow> run_loop beaufort_body h1 d result)"

definition metric_pressure_dict_to_inhg_store :: "heap \<Rightarrow> ref \<Rightarrow> (error + ref) \<times> heap" where
  "metric_pressure_dict_to_inhg_store h d =
     (case alloc h [] of (result, h1) \<Rightarrow> run_loop pressure_body h1 d result)"

text \<open>In \<open>visibility_dict_to\<close> the result is allocated before the unit is checked.\<close>

definition visibility_dict_to_store :: "heap \<Rightarrow> ref \<Rightarrow> string \<Rightarrow> (error + ref) \<times> heap" where
  "visibility_dict_to_store h d target_visibility_unit =
     (case alloc h [] of
        (result, h1) \<Rightarrow>
          if target_visibility_unit = ''miles'' then
            run_loop (visibility_body MILE_FOR_ONE_METER) h1 d result
          else if target_visibility_unit = ''kms'' then
            run_loop (visibility_body KMS_FOR_ONE_METER) h1 d result
          else (Inl invalid_visibility_unit, h1))"

definition visibility_dict_to_default_store :: "heap \<Rightarrow> ref \<Rightarrow> (error + ref) \<times> heap" where
  "visibility_dict_to_default_store h d = visibility_dict_to_store h d ''miles''"

text \<open>What a call gives its caller: the error, or the mapping behind the reference.\<close>

definition outcome :: "(error + ref) \<times> heap \<Rightarrow> error + pydict" where
  "outcome c = (case c of (Inl e, h') \<Rightarrow> Inl e | (Inr r, h') \<Rightarrow> Inr (h' ! r))"

text \<open>
  Python's \<open>==\<close> on numbers and \<open>None\<close>, and on two dictionaries (equal sizes, and
  every key of the first in the second with an equal value). A NaN equals nothing,
  itself included. Python's containers take an object as equal to itself before they
  compare; numbers have no identity here, so \<open>dict_eq\<close> is \<open>==\<close> on dictionaries
  whose values are different objects, as the values computed by two calls are.
\<close>

fun feq :: "pyfloat \<Rightarrow> pyfloat \<Rightarrow> bool" where
  "feq NaN _ = False"
| "feq _ NaN = False"
| "feq a b = (a = b)"

fun py_eq :: "pyval \<Rightarrow> pyval \<Rightarrow> bool" where
  "py_eq PNone PNone = True"
| "py_eq PNone _ = False"
| "py_eq _ PNone = False"
| "py_eq a b = feq (num a) (num b)"

definition dict_eq :: "pydict \<Rightarrow> pydict \<Rightarrow> bool" where
  "dict_eq a b =
     (length a = length b \<and>
      list_all (\<lambda>(k, v). case map_of b k of None \<Rightarrow> False | Some w \<Rightarrow> py_eq v w) a)"

text \<open>
  Two outcomes of a conversion on equal inputs: both are errors, or both are mappings
  with the same items, which \<open>==\<close> reports equal when no value is a NaN.
\<close>

fun same_result :: "error + pydict \<Rightarrow> error + pydict \<Rightarrow> bool" where
  "same_result (Inr a) (Inr b) =
     (set a = set b \<and> (list_all (\<lambda>(k, v). v \<noteq> PFloat NaN) a \<longrightarrow> dict_eq a b))"
| "same_result (Inl e) (Inl e') = True"
| "same_result _ _ = False"

text \<open>
  Purity of the call of \<open>f\<close> on the input \<open>d\<close> in the store \<open>h\<close>, against a second
  input \<open>d'\<close> in a store \<open>h'\<close>: whether the call returns or raises, every dictionary
  of \<open>h\<close>, the input among them, is unchanged after it; on an input with the same
  items in the same order the outcome is the same (the same error, or a mapping with
  the same items in the same order); on an input with the same items in any order the
  outcomes are the same results.
\<close>

definition pure_call :: "(heap \<Rightarrow> ref \<Rightarrow> (error + ref) \<times> heap) \<Rightarrow>
    heap \<Rightarrow> ref \<Rightarrow> heap \<Rightarrow> ref \<Rightarrow> bool" where
  "pure_call f h d h' d' =
     (take (length h) (snd (f h d)) = h \<and>
      (h' ! d' = h ! d \<longrightarrow> outcome (f h' d') = outcome (f h d)) \<and>
      (set (h' ! d') = set (h ! d) \<longrightarrow> same_result (outcome (f h d)) (outcome (f h' d'))))"

section \<open>Evaluating the rounding to binary64\<close>

lemma ilog2_ge2: "2 \<le> x \<Longrightarrow> ilog2 x = 1 + ilog2 (x / 2)"
  by (subst ilog2.simps) simp

lemma ilog2_lt1: "0 < x \<Longrightarrow> x < 1 \<Longrightarrow> ilog2 x = ilog2 (2 * x) - 1"
  by (subst ilog2.simps) simp

lemma ilog2_unit: "1 \<le> x \<Longrightarrow> x < 2 \<Longrightarrow> ilog2 x = 0"
  by (subst ilog2.simps) simp


lemma floor_rat_numeral:
  "\<lfloor>numeral a / numeral b :: rat\<rfloor> = numeral a div numeral b"
  "\<lfloor>- (numeral a / numeral b) :: rat\<rfloor> = - numeral a div numeral b"
  "\<lfloor>1 / numeral b :: rat\<rfloor> = 1 div numeral b"
  "\<lfloor>- (1 / numeral b) :: rat\<rfloor> = - 1 div numeral b"
proof -
  show "\<lfloor>numeral a / numeral b :: rat\<rfloor> = numeral a div numeral b"
    using floor_divide_of_int_eq [of "numeral a" "numeral b", where ?'a = rat] by simp
  show "\<lfloor>- (numeral a / numeral b) :: rat\<rfloor> = - numeral a div numeral b"
    using floor_divide_of_int_eq [of "- numeral a" "numeral b", where ?'a = rat] by simp
  show "\<lfloor>1 / numeral b :: rat\<rfloor> = 1 div numeral b"
    using floor_divide_of_int_eq [of 1 "numeral b", where ?'a = rat] by simp
  show "\<lfloor>- (1 / numeral b) :: rat\<rfloor> = - 1 div numeral b"
    using floor_divide_of_int_eq [of "- 1" "numeral b", where ?'a = rat] by simp
qed

lemmas rnd_eval = floor_rat_numeral  rnd_def ilog2_ge2 ilog2_lt1 ilog2_unit pow2_def round_half_even_def Let_def


section \<open>Float literals of the module\<close>

lemma lit_0_2: "rnd (2 / 10) = Finite (3602879701896397 / 18014398509481984)"
  by (simp add: rnd_eval)

lemma lit_1_5: "rnd (15 / 10) = Finite (3 / 2)"
  by (simp add: rnd_eval)

lemma lit_3_3: "rnd (33 / 10) = Finite (3715469692580659 / 1125899906842624)"
  by (simp add: rnd_eval)

lemma lit_5_4: "rnd (54 / 10) = Finite (3039929748475085 / 562949953421312)"
  by (simp add: rnd_eval)

lemma lit_7_9: "rnd (79 / 10) = Finite (4447304632028365 / 562949953421312)"
  by (simp add: rnd_eval)

lemma lit_10_7: "rnd (107 / 10) = Finite (3011782250804019 / 281474976710656)"
  by (simp add: rnd_eval)

lemma lit_13_8: "rnd (138 / 10) = Finite (3884354678607053 / 281474976710656)"
  by (simp add: rnd_eval)

lemma lit_17_1: "rnd (171 / 10) = Finite (2406611050876109 / 140737488355328)"
  by (simp add: rnd_eval)

lemma lit_20_7: "rnd (207 / 10) = Finite (5826532017910579 / 281474976710656)"
  by (simp add: rnd_eval)

lemma lit_24_4: "rnd (244 / 10) = Finite (3433994715870003 / 140737488355328)"
  by (simp add: rnd_eval)

lemma lit_28_4: "rnd (284 / 10) = Finite (3996944669291315 / 140737488355328)"
  by (simp add: rnd_eval)

lemma lit_32_6: "rnd (326 / 10) = Finite (4588042120383693 / 140737488355328)"
  by (simp add: rnd_eval)

lemmas beaufort_lits = lit_0_2 lit_1_5 lit_3_3 lit_5_4 lit_7_9 lit_10_7 lit_13_8
  lit_17_1 lit_20_7 lit_24_4 lit_28_4 lit_32_6

section \<open>Dictionaries: assignment to a fresh key, and the loop over the items\<close>

lemma dict_set_fresh: "k \<notin> fst ` set r \<Longrightarrow> dict_set r k v = r @ [(k, v)]"
  by (induction r) auto

lemma dict_set_subset: "set (dict_set r k v) \<subseteq> insert (k, v) (set r)"
  by (induction r) (auto split: if_splits)

text \<open>A body that converts the values it keeps and skips the others.\<close>

lemma for_items_filter_map:
  assumes "\<And>k v res. (k, v) \<in> set items \<Longrightarrow>
      body k v res = (if keep v then Inr (dict_set res k (c k v)) else Inr res)"
    and "distinct (map fst items)"
    and "fst ` set acc \<inter> fst ` set items = {}"
  shows "for_items body items acc =
      Inr (acc @ map (\<lambda>(k, v). (k, c k v)) (filter (\<lambda>(k, v). keep v) items))"
  using assms
proof (induction items arbitrary: acc)
  case Nil
  then show ?case by simp
next
  case (Cons kv items)
  obtain k v where kv: "kv = (k, v)" by (cases kv)
  have fresh: "k \<notin> fst ` set acc" using Cons.prems(3) kv by auto
  have rest: "\<And>k v res. (k, v) \<in> set items \<Longrightarrow>
      body k v res = (if keep v then Inr (dict_set res k (c k v)) else Inr res)"
    using Cons.prems(1) by simp
  have dist: "distinct (map fst items)" using Cons.prems(2) by simp
  show ?case
  proof (cases "keep v")
    case True
    have step: "body k v acc = Inr (acc @ [(k, c k v)])"
      using Cons.prems(1) [of k v acc] kv fresh True by (simp add: dict_set_fresh)
    have disj: "fst ` set (acc @ [(k, c k v)]) \<inter> fst ` set items = {}"
      using Cons.prems(2,3) kv by auto
    from Cons.IH [OF rest dist disj] step kv True show ?thesis by simp
  next
    case False
    have step: "body k v acc = Inr acc"
      using Cons.prems(1) [of k v acc] kv False by simp
    have disj: "fst ` set acc \<inter> fst ` set items = {}"
      using Cons.prems(3) by auto
    from Cons.IH [OF rest dist disj] step kv False show ?thesis by simp
  qed
qed

lemma for_items_map:
  assumes "\<And>k v res. (k, v) \<in> set items \<Longrightarrow> body k v res = Inr (dict_set res k (c k v))"
    and "distinct (map fst items)"
  shows "for_items body items [] = Inr (map (\<lambda>(k, v). (k, c k v)) items)"
  using for_items_filter_map [of items body "\<lambda>_. True" c "[]"] assms by simp

text \<open>The first item whose body raises ends the loop with its error.\<close>

lemma for_items_error:
  assumes "\<And>k' v' res. (k', v') \<in> set pre \<Longrightarrow> \<exists>res'. body k' v' res = Inr res'"
    and "\<And>res. body k v res = Inl e"
  shows "for_items body (pre @ (k, v) # post) acc = Inl e"
  using assms(1)
proof (induction pre arbitrary: acc)
  case Nil
  then show ?case by (simp add: assms(2))
next
  case (Cons kv pre)
  obtain k' v' where kv: "kv = (k', v')" by (cases kv)
  obtain res' where "body k' v' acc = Inr res'"
    using Cons.prems [of k' v' acc] kv by auto
  moreover have "for_items body (pre @ (k, v) # post) res' = Inl e"
    using Cons.prems by (intro Cons.IH) auto
  ultimately show ?case using kv by simp
qed

text \<open>A property of the result dictionary that every step of the loop keeps.\<close>

lemma for_items_invariant:
  assumes "for_items body items acc = Inr res"
    and "\<And>k v r r'. body k v r = Inr r' \<Longrightarrow> P r \<Longrightarrow> P r'"
    and "P acc"
  shows "P res"
  using assms(1,3)
proof (induction items arbitrary: acc)
  case Nil
  then show ?case by simp
next
  case (Cons kv items)
  obtain k v where kv: "kv = (k, v)" by (cases kv)
  show ?case
  proof (cases "body k v acc")
    case (Inl e)
    then show ?thesis using Cons.prems(1) kv by simp
  next
    case (Inr r')
    then have "for_items body items r' = Inr res" using Cons.prems(1) kv by simp
    moreover have "P r'" using assms(2) [OF Inr Cons.prems(2)] .
    ultimately show ?thesis by (rule Cons.IH)
  qed
qed

section \<open>Formatting with two decimals and reading back\<close>

lemma digit_char_props:
  assumes "d < 10"
  shows "is_digit (digit_char d)" and "digit_val (digit_char d) = d"
  using assms by (simp_all add: digit_char_def is_digit_def digit_val_def)

lemma not_digit [simp]:
  "\<not> is_digit CHR ''.''" "\<not> is_digit CHR ''-''" "\<not> is_digit CHR ''n''" "\<not> is_digit CHR ''i''"
  by (simp_all add: is_digit_def)

lemma read_nat_snoc: "read_nat (s @ [c]) = 10 * read_nat s + digit_val c"
  by (simp add: read_nat_def)

lemma digits_props: "list_all is_digit (digits n) \<and> digits n \<noteq> [] \<and> read_nat (digits n) = n"
proof (induction n rule: digits.induct)
  case (1 n)
  show ?case
  proof (cases "n < 10")
    case True
    then have "digits n = [digit_char n]" by (subst digits.simps) simp
    then show ?thesis
      using digit_char_props [OF True] by (simp add: read_nat_def)
  next
    case False
    have "n mod 10 < 10" by simp
    then have "is_digit (digit_char (n mod 10))" "digit_val (digit_char (n mod 10)) = n mod 10"
      by (rule digit_char_props)+
    moreover have "digits n = digits (n div 10) @ [digit_char (n mod 10)]"
      using False by (subst digits.simps) simp
    ultimately show ?thesis
      using "1.IH" [OF False] by (simp add: read_nat_snoc)
  qed
qed

lemma round_half_even_sign:
  "x < 0 \<Longrightarrow> round_half_even x \<le> 0" "0 \<le> x \<Longrightarrow> 0 \<le> round_half_even x"
proof -
  assume "x < 0"
  then have "\<lfloor>x\<rfloor> \<le> - 1" by (simp add: floor_le_iff)
  then show "round_half_even x \<le> 0"
    by (simp add: round_half_even_def Let_def)
next
  assume "0 \<le> x"
  then have "0 \<le> \<lfloor>x\<rfloor>" by simp
  then show "0 \<le> round_half_even x"
    by (simp add: round_half_even_def Let_def)
qed

lemma digit_not_special:
  "is_digit c \<Longrightarrow> c \<noteq> CHR ''n'' \<and> c \<noteq> CHR ''i'' \<and> c \<noteq> CHR ''-'' \<and> c \<noteq> CHR ''.''"
  by auto

lemma takeWhile_digits:
  "\<forall>x \<in> set ip. is_digit x \<Longrightarrow> takeWhile is_digit (ip @ CHR ''.'' # r) = ip"
  by (simp add: takeWhile_tail)

lemma dropWhile_digits:
  "\<forall>x \<in> set ip. is_digit x \<Longrightarrow> dropWhile is_digit (ip @ CHR ''.'' # r) = CHR ''.'' # r"
  by simp

lemma float_of_str_pos:
  assumes "\<forall>x \<in> set ip. is_digit x" "ip \<noteq> []" "is_digit c1" "is_digit c2"
  shows "float_of_str (ip @ CHR ''.'' # [c1, c2]) =
    Inr (rnd (of_nat (read_nat ip) + of_nat (read_nat [c1, c2]) / 100))"
proof -
  let ?s = "ip @ CHR ''.'' # [c1, c2]"
  obtain c cs where ip: "ip = c # cs" using assms(2) by (cases ip) auto
  then have "is_digit c" using assms(1) by simp
  then have c: "c \<noteq> CHR ''n''" "c \<noteq> CHR ''i''" "c \<noteq> CHR ''-''"
    using digit_not_special by blast+
  have s: "?s \<noteq> ''nan''" "?s \<noteq> ''inf''" "?s \<noteq> ''-inf''" "?s \<noteq> []" "hd ?s \<noteq> CHR ''-''"
    using c by (simp_all add: ip)
  have tw: "takeWhile is_digit ?s = ip" using assms(1) by (rule takeWhile_digits)
  have dw: "dropWhile is_digit ?s = CHR ''.'' # [c1, c2]" using assms(1) by (rule dropWhile_digits)
  show ?thesis
    unfolding float_of_str_def Let_def using s assms(2,3,4)
    by (simp add: tw dw)
qed

lemma float_of_str_neg:
  assumes "\<forall>x \<in> set ip. is_digit x" "ip \<noteq> []" "is_digit c1" "is_digit c2"
  shows "float_of_str (CHR ''-'' # ip @ CHR ''.'' # [c1, c2]) =
    Inr (rnd (- (of_nat (read_nat ip) + of_nat (read_nat [c1, c2]) / 100)))"
proof -
  let ?s = "ip @ CHR ''.'' # [c1, c2]"
  obtain c cs where ip: "ip = c # cs" using assms(2) by (cases ip) auto
  then have "is_digit c" using assms(1) by simp
  then have c: "c \<noteq> CHR ''n''" "c \<noteq> CHR ''i''" "c \<noteq> CHR ''-''"
    using digit_not_special by blast+
  have s: "CHR ''-'' # ?s \<noteq> ''nan''" "CHR ''-'' # ?s \<noteq> ''inf''" "CHR ''-'' # ?s \<noteq> ''-inf''"
    using c by (simp_all add: ip)
  have tw: "takeWhile is_digit ?s = ip" using assms(1) by (rule takeWhile_digits)
  have dw: "dropWhile is_digit ?s = CHR ''.'' # [c1, c2]" using assms(1) by (rule dropWhile_digits)
  show ?thesis
    unfolding float_of_str_def Let_def using s assms(2,3,4)
    by (simp add: tw dw)
qed

lemma two_digits:
  "read_nat [digit_char (n mod 100 div 10), digit_char (n mod 10)] = n mod 100"
proof -
  have "digit_val (digit_char (n mod 100 div 10)) = n mod 100 div 10"
    by (rule digit_char_props) simp
  moreover have "digit_val (digit_char (n mod 10)) = n mod 10"
    by (rule digit_char_props) simp
  ultimately have "read_nat [digit_char (n mod 100 div 10), digit_char (n mod 10)] =
      10 * (n mod 100 div 10) + n mod 10"
    by (simp add: read_nat_def)
  also have "\<dots> = 10 * (n mod 100 div 10) + n mod 100 mod 10"
    by (simp add: mod_mod_cancel)
  also have "\<dots> = n mod 100" by (rule mult_div_mod_eq)
  finally show ?thesis .
qed

lemma hundredths: "(of_nat (n div 100) :: rat) + of_nat (n mod 100) / 100 = of_nat n / 100"
proof -
  have "(of_nat n :: rat) = of_nat (100 * (n div 100) + n mod 100)" by simp
  also have "\<dots> = 100 * of_nat (n div 100) + of_nat (n mod 100)"
    by (simp only: of_nat_add of_nat_mult of_nat_numeral)
  finally show ?thesis by simp
qed

lemma float_of_str_format_2f: "float_of_str (format_2f f) = Inr (py_round f 2)"
proof (cases f)
  case (Finite x)
  define r where "r = round_half_even (x * 100)"
  define n where "n = nat \<bar>r\<bar>"
  define ip where "ip = digits (n div 100)"
  define c1 where "c1 = digit_char (n mod 100 div 10)"
  define c2 where "c2 = digit_char (n mod 10)"
  have ip: "\<forall>x \<in> set ip. is_digit x" "ip \<noteq> []" "read_nat ip = n div 100"
    using digits_props [of "n div 100"] by (simp_all add: ip_def list_all_iff)
  have c1: "is_digit c1" unfolding c1_def by (rule digit_char_props) simp
  have c2: "is_digit c2" unfolding c2_def by (rule digit_char_props) simp
  have frac: "read_nat [c1, c2] = n mod 100" unfolding c1_def c2_def by (rule two_digits)
  have val: "(of_nat (read_nat ip) :: rat) + of_nat (read_nat [c1, c2]) / 100 = of_nat n / 100"
    using hundredths [of n] by (simp only: ip(3) frac)
  have round: "py_round f 2 = rnd (of_int r / 100)"
    by (simp add: Finite r_def)
  show ?thesis
  proof (cases "x < 0")
    case True
    then have "r \<le> 0" using round_half_even_sign(1) [of "x * 100"] by (simp add: r_def)
    then have n: "(of_nat n :: rat) = - of_int r" by (simp add: n_def)
    have "format_2f f = CHR ''-'' # ip @ CHR ''.'' # [c1, c2]"
      using True by (simp add: Finite Let_def ip_def c1_def c2_def n_def r_def)
    then have "float_of_str (format_2f f) =
        Inr (rnd (- (of_nat (read_nat ip) + of_nat (read_nat [c1, c2]) / 100)))"
      using float_of_str_neg [OF ip(1,2) c1 c2] by simp
    then show ?thesis by (simp only: val n round) simp
  next
    case False
    then have "0 \<le> r" using round_half_even_sign(2) [of "x * 100"] by (simp add: r_def)
    then have n: "(of_nat n :: rat) = of_int r" by (simp add: n_def)
    have "format_2f f = ip @ CHR ''.'' # [c1, c2]"
      using False by (simp add: Finite Let_def ip_def c1_def c2_def n_def r_def)
    then have "float_of_str (format_2f f) =
        Inr (rnd (of_nat (read_nat ip) + of_nat (read_nat [c1, c2]) / 100))"
      using float_of_str_pos [OF ip(1,2) c1 c2] by simp
    then show ?thesis by (simp only: val n round)
  qed
qed (simp_all add: float_of_str_def)
section \<open>The Beaufort levels\<close>

lemma beaufort_level_table: "beaufort_level v = table_lookup beaufort_table v"
  unfolding beaufort_level_def beaufort_table_def beaufort_lits
  by (cases v) (simp_all add: not_le)

lemma beaufort_level_range: "0 \<le> beaufort_level v \<and> beaufort_level v \<le> 12"
  unfolding beaufort_level_def by simp

lemma beaufort_body_numeric:
  assumes "key \<noteq> ''deg'' \<longrightarrow> val \<noteq> PNone"
  shows "beaufort_body key val res =
    Inr (dict_set res key (if key = ''deg'' then val else PInt (beaufort_level (num val))))"
  using assms by (cases val) (simp_all add: beaufort_body_def)

lemma beaufort_numeric:
  assumes "distinct (map fst (h ! d))"
    and "\<forall>(k, v) \<in> set (h ! d). k \<noteq> ''deg'' \<longrightarrow> v \<noteq> PNone"
  shows "metric_wind_dict_to_beaufort h d =
    Inr (length h, h @ [map (\<lambda>(k, v). (k, if k = ''deg'' then v else PInt (beaufort_level (num v)))) (h ! d)])"
proof -
  have "for_items beaufort_body (h ! d) [] =
      Inr (map (\<lambda>(k, v). (k, if k = ''deg'' then v else PInt (beaufort_level (num v)))) (h ! d))"
  proof (rule for_items_map)
    fix k v res
    assume "(k, v) \<in> set (h ! d)"
    then have "k \<noteq> ''deg'' \<longrightarrow> v \<noteq> PNone" using assms(2) by auto
    then show "beaufort_body k v res =
        Inr (dict_set res k (if k = ''deg'' then v else PInt (beaufort_level (num v))))"
      by (rule beaufort_body_numeric)
  qed (rule assms(1))
  then show ?thesis by (simp add: metric_wind_dict_to_beaufort_def alloc_def)
qed

lemma beaufort_table_exact:
  "beaufort_table =
     [(Finite (3602879701896397 / 18014398509481984), 0), (Finite (3 / 2), 1),
      (Finite (3715469692580659 / 1125899906842624), 2),
      (Finite (3039929748475085 / 562949953421312), 3),
      (Finite (4447304632028365 / 562949953421312), 4),
      (Finite (3011782250804019 / 281474976710656), 5),
      (Finite (3884354678607053 / 281474976710656), 6),
      (Finite (2406611050876109 / 140737488355328), 7),
      (Finite (5826532017910579 / 281474976710656), 8),
      (Finite (3433994715870003 / 140737488355328), 9),
      (Finite (3996944669291315 / 140737488355328), 10),
      (Finite (4588042120383693 / 140737488355328), 11)]"
  unfolding beaufort_table_def beaufort_lits by (rule refl)

lemma for_items_beaufort_levels:
  assumes "for_items beaufort_body items acc = Inr res"
    and "\<forall>(k, v) \<in> set acc. k \<noteq> ''deg'' \<longrightarrow> (\<exists>n. v = PInt n \<and> 0 \<le> n \<and> n \<le> 12)"
  shows "\<forall>(k, v) \<in> set res. k \<noteq> ''deg'' \<longrightarrow> (\<exists>n. v = PInt n \<and> 0 \<le> n \<and> n \<le> 12)"
proof (rule for_items_invariant [OF assms(1), where P = "\<lambda>r.
    \<forall>(k, v) \<in> set r. k \<noteq> ''deg'' \<longrightarrow> (\<exists>n. v = PInt n \<and> 0 \<le> n \<and> n \<le> 12)"])
  fix k v r r'
  assume step: "beaufort_body k v r = Inr r'"
    and inv: "\<forall>(k, v) \<in> set r. k \<noteq> ''deg'' \<longrightarrow> (\<exists>n. v = PInt n \<and> 0 \<le> n \<and> n \<le> 12)"
  show "\<forall>(k, v) \<in> set r'. k \<noteq> ''deg'' \<longrightarrow> (\<exists>n. v = PInt n \<and> 0 \<le> n \<and> n \<le> 12)"
  proof (cases "k = ''deg''")
    case True
    then have "r' = dict_set r k v" using step by (simp add: beaufort_body_def)
    then have "set r' \<subseteq> insert (k, v) (set r)" by (simp add: dict_set_subset)
    then show ?thesis using inv True by auto
  next
    case False
    then obtain x where "r' = dict_set r k (PInt (beaufort_level x))"
      using step by (auto simp: beaufort_body_def split: sum.splits)
    then have "set r' \<subseteq> insert (k, PInt (beaufort_level x)) (set r)"
      by (simp add: dict_set_subset)
    then show ?thesis using inv beaufort_level_range [of x] by auto
  qed
qed (rule assms(2))

section \<open>Temperature: the scalar conversions\<close>

lemma fle_not_flt: "fle a b \<Longrightarrow> \<not> flt b a"
  by (cases a; cases b) simp_all

lemma kelvin_to_celsius_cases:
  "kelvin_to_celsius k =
     (case cmp_operand k of
        Inl e \<Rightarrow> Inl e
      | Inr x \<Rightarrow>
          if flt x (Finite 0) then Inl negative_temperature
          else (case to_float k of
                  Inl e \<Rightarrow> Inl e
                | Inr y \<Rightarrow> Inr (PFloat (py_round (fsub y KELVIN_OFFSET) 2))))"
  by (simp add: kelvin_to_celsius_def float_of_str_format_2f Let_def split: sum.splits)

lemma kelvin_to_fahrenheit_cases:
  "kelvin_to_fahrenheit k =
     (case cmp_operand k of
        Inl e \<Rightarrow> Inl e
      | Inr x \<Rightarrow>
          if flt x (Finite 0) then Inl negative_temperature
          else (case to_float k of
                  Inl e \<Rightarrow> Inl e
                | Inr y \<Rightarrow> Inr (PFloat (py_round
                    (fadd (fmul (fsub y KELVIN_OFFSET) FAHRENHEIT_DEGREE_SCALE)
                       FAHRENHEIT_OFFSET) 2))))"
  by (simp add: kelvin_to_fahrenheit_def float_of_str_format_2f Let_def split: sum.splits)

lemma to_float_errors: "to_float k = Inl e \<Longrightarrow> e = TypeError \<or> e = OverflowError"
  by (cases k) (auto split: if_splits)

lemma cmp_operand_errors: "cmp_operand k = Inl e \<Longrightarrow> e = TypeError"
  by (cases k) auto

lemma kelvin_to_celsius_errors:
  "kelvin_to_celsius k = Inl e \<Longrightarrow>
     e = TypeError \<or> e = OverflowError \<or>
     (e = negative_temperature \<and> (\<exists>x. cmp_operand k = Inr x \<and> flt x (Finite 0)))"
  unfolding kelvin_to_celsius_cases
  by (auto split: sum.splits if_splits dest: to_float_errors cmp_operand_errors)

lemma kelvin_to_fahrenheit_errors:
  "kelvin_to_fahrenheit k = Inl e \<Longrightarrow>
     e = TypeError \<or> e = OverflowError \<or>
     (e = negative_temperature \<and> (\<exists>x. cmp_operand k = Inr x \<and> flt x (Finite 0)))"
  unfolding kelvin_to_fahrenheit_cases
  by (auto split: sum.splits if_splits dest: to_float_errors cmp_operand_errors)

lemma kelvin_to_celsius_negative:
  "cmp_operand k = Inr x \<Longrightarrow> flt x (Finite 0) \<Longrightarrow> kelvin_to_celsius k = Inl negative_temperature"
  by (simp add: kelvin_to_celsius_cases)

lemma kelvin_to_fahrenheit_negative:
  "cmp_operand k = Inr x \<Longrightarrow> flt x (Finite 0) \<Longrightarrow> kelvin_to_fahrenheit k = Inl negative_temperature"
  by (simp add: kelvin_to_fahrenheit_cases)

section \<open>Errors of the loop, and the comprehension\<close>

lemma for_items_error_source:
  "for_items body items acc = Inl e \<Longrightarrow> \<exists>(k, v) \<in> set items. \<exists>res. body k v res = Inl e"
proof (induction items arbitrary: acc)
  case Nil
  then show ?case by simp
next
  case (Cons kv items)
  obtain k v where kv: "kv = (k, v)" by (cases kv)
  show ?case
  proof (cases "body k v acc")
    case (Inl e')
    then have "e' = e" using Cons.prems kv by simp
    then show ?thesis using Inl kv by auto
  next
    case (Inr res)
    then have "for_items body items res = Inl e" using Cons.prems kv by simp
    then have "\<exists>(k, v) \<in> set items. \<exists>res. body k v res = Inl e" by (rule Cons.IH)
    then show ?thesis by auto
  qed
qed

lemma for_items_raises:
  assumes "(k, v) \<in> set items" and "\<And>res. isl (body k v res)"
  shows "isl (for_items body items acc)"
  using assms(1)
proof (induction items arbitrary: acc)
  case Nil
  then show ?case by simp
next
  case (Cons kv items)
  obtain k' v' where kv: "kv = (k', v')" by (cases kv)
  show ?case
  proof (cases "body k' v' acc")
    case (Inl e)
    then show ?thesis using kv by simp
  next
    case (Inr res)
    then have "kv \<noteq> (k, v)" using assms(2) [of acc] kv by auto
    then have "(k, v) \<in> set items" using Cons.prems by simp
    then have "isl (for_items body items res)" by (rule Cons.IH)
    then show ?thesis using Inr kv by simp
  qed
qed

lemma comprehension_returns:
  assumes "\<forall>(k, v) \<in> set items. \<not> isl (f v)" and "distinct (map fst items)"
  shows "for_items (comprehension_body f) items [] = Inr (map (\<lambda>(k, v). (k, projr (f v))) items)"
proof (rule for_items_map)
  fix k v res
  assume "(k, v) \<in> set items"
  then have "\<not> isl (f v)" using assms(1) by auto
  then show "comprehension_body f k v res = Inr (dict_set res k (projr (f v)))"
    by (cases "f v") (simp_all add: comprehension_body_def)
qed (rule assms(2))

lemma comprehension_error_source:
  assumes "for_items (comprehension_body f) items acc = Inl e"
  shows "\<exists>(k, v) \<in> set items. f v = Inl e"
proof -
  from for_items_error_source [OF assms]
  obtain k v res where "(k, v) \<in> set items" and "comprehension_body f k v res = Inl e"
    by auto
  then have "f v = Inl e" by (auto simp: comprehension_body_def split: sum.splits)
  then show ?thesis using \<open>(k, v) \<in> set items\<close> by auto
qed

lemma comprehension_first_error:
  assumes "\<forall>(k', v') \<in> set pre. \<not> isl (f v')" and "f v = Inl e"
  shows "for_items (comprehension_body f) (pre @ (k, v) # post) acc = Inl e"
proof (rule for_items_error)
  fix k' v' res
  assume "(k', v') \<in> set pre"
  then have "\<not> isl (f v')" using assms(1) by auto
  then show "\<exists>res'. comprehension_body f k' v' res = Inr res'"
    by (cases "f v'") (simp_all add: comprehension_body_def)
next
  fix res
  show "comprehension_body f k v res = Inl e" using assms(2) by (simp add: comprehension_body_def)
qed

lemma comprehension_raises:
  assumes "(k, v) \<in> set items" and "isl (f v)"
  shows "isl (for_items (comprehension_body f) items acc)"
proof (rule for_items_raises [OF assms(1)])
  fix res
  show "isl (comprehension_body f k v res)"
    using assms(2) by (cases "f v") (simp_all add: comprehension_body_def)
qed

section \<open>Temperature: the dictionary conversion\<close>

lemma unit_error_distinct:
  "invalid_temperature_unit \<noteq> negative_temperature"
  "invalid_temperature_unit \<noteq> TypeError"
  "invalid_temperature_unit \<noteq> OverflowError"
  by (simp_all add: invalid_temperature_unit_def negative_temperature_def name_of_module_def)

lemma kelvin_to_celsius_300:
  "kelvin_to_celsius (PInt 300) = Inr (PFloat (Finite (3778801562340557 / 140737488355328)))"
  by (simp add: kelvin_to_celsius_cases rnd_eval fsub_def KELVIN_OFFSET_def)

lemma kelvin_to_fahrenheit_300:
  "kelvin_to_fahrenheit (PInt 300) = Inr (PFloat (Finite (5652721219791749 / 70368744177664)))"
  by (simp add: kelvin_to_fahrenheit_cases rnd_eval fsub_def KELVIN_OFFSET_def
      FAHRENHEIT_DEGREE_SCALE_def FAHRENHEIT_OFFSET_def)

lemma kelvin_dict_to_celsius_returns:
  assumes "distinct (map fst (h ! d))" and "\<forall>(k, v) \<in> set (h ! d). \<not> isl (kelvin_to_celsius v)"
  shows "kelvin_dict_to h d ''celsius'' =
    Inr (length h, h @ [map (\<lambda>(k, v). (k, projr (kelvin_to_celsius v))) (h ! d)])"
  using comprehension_returns [OF assms(2,1)] by (simp add: kelvin_dict_to_def alloc_def)

lemma kelvin_dict_to_fahrenheit_returns:
  assumes "distinct (map fst (h ! d))" and "\<forall>(k, v) \<in> set (h ! d). \<not> isl (kelvin_to_fahrenheit v)"
  shows "kelvin_dict_to h d ''fahrenheit'' =
    Inr (length h, h @ [map (\<lambda>(k, v). (k, projr (kelvin_to_fahrenheit v))) (h ! d)])"
  using comprehension_returns [OF assms(2,1)] by (simp add: kelvin_dict_to_def alloc_def)

lemma kelvin_dict_to_no_unit_error:
  assumes "u = ''kelvin'' \<or> u = ''celsius'' \<or> u = ''fahrenheit''"
  shows "kelvin_dict_to h d u \<noteq> Inl invalid_temperature_unit"
proof
  assume err: "kelvin_dict_to h d u = Inl invalid_temperature_unit"
  consider "u = ''kelvin''" | "u = ''celsius''" | "u = ''fahrenheit''" using assms by blast
  then show False
  proof cases
    case 1
    then show ?thesis using err by (simp add: kelvin_dict_to_def)
  next
    case 2
    then have "for_items (comprehension_body kelvin_to_celsius) (h ! d) [] =
        Inl invalid_temperature_unit"
      using err by (simp add: kelvin_dict_to_def split: sum.splits)
    then obtain v where "kelvin_to_celsius v = Inl invalid_temperature_unit"
      using comprehension_error_source by fastforce
    then show ?thesis using kelvin_to_celsius_errors unit_error_distinct by blast
  next
    case 3
    then have "for_items (comprehension_body kelvin_to_fahrenheit) (h ! d) [] =
        Inl invalid_temperature_unit"
      using err by (simp add: kelvin_dict_to_def split: sum.splits)
    then obtain v where "kelvin_to_fahrenheit v = Inl invalid_temperature_unit"
      using comprehension_error_source by fastforce
    then show ?thesis using kelvin_to_fahrenheit_errors unit_error_distinct by blast
  qed
qed

lemma py_mul_errors: "py_mul v c = Inl e \<Longrightarrow> e = TypeError \<or> e = OverflowError"
  by (auto simp: py_mul_def split: sum.splits dest: to_float_errors)

lemma visibility_body_errors:
  "visibility_body c k v res = Inl e \<Longrightarrow> e = TypeError \<or> e = OverflowError"
  by (auto simp: visibility_body_def split: if_splits sum.splits dest: py_mul_errors)

lemma visibility_loop_errors:
  assumes "for_items (visibility_body c) items acc = Inl e"
  shows "e = TypeError \<or> e = OverflowError"
  using for_items_error_source [OF assms] visibility_body_errors by fastforce

section \<open>Wind, pressure and visibility: the loops\<close>

lemma wind_body_converts:
  assumes "key \<noteq> ''deg'' \<longrightarrow> \<not> isl (to_float val)"
  shows "wind_body c key val res =
    Inr (dict_set res key (if key = ''deg'' then val else PFloat (fmul (projr (to_float val)) c)))"
  using assms by (cases "to_float val") (simp_all add: wind_body_def py_mul_def)

lemma wind_loop_converts:
  assumes "distinct (map fst items)"
    and "\<forall>(k, v) \<in> set items. k \<noteq> ''deg'' \<longrightarrow> \<not> isl (to_float v)"
  shows "for_items (wind_body c) items [] =
    Inr (map (\<lambda>(k, v). (k, if k = ''deg'' then v else PFloat (fmul (projr (to_float v)) c))) items)"
proof (rule for_items_map)
  fix k v res
  assume "(k, v) \<in> set items"
  then have "k \<noteq> ''deg'' \<longrightarrow> \<not> isl (to_float v)" using assms(2) by auto
  then show "wind_body c k v res =
      Inr (dict_set res k (if k = ''deg'' then v else PFloat (fmul (projr (to_float v)) c)))"
    by (rule wind_body_converts)
qed (rule assms(1))

lemma lit_hpa: "rnd (338639 / 10000) = Finite (595740028989499 / 17592186044416)"
  by (simp add: rnd_eval)

lemma py_div_hpa:
  assumes "\<not> isl (to_float v)"
  shows "\<not> isl (py_div v (rnd (338639 / 10000)))"
  using assms unfolding lit_hpa by (cases "to_float v") (simp_all add: py_div_def)

lemma py_mul_returns:
  assumes "\<not> isl (to_float v)"
  shows "\<not> isl (py_mul v c)"
  using assms by (cases "to_float v") (simp_all add: py_mul_def)

lemma pressure_loop_converts:
  assumes "distinct (map fst items)"
    and "\<forall>(k, v) \<in> set items. v \<noteq> PNone \<longrightarrow> \<not> isl (to_float v)"
  shows "for_items pressure_body items [] =
    Inr (map (\<lambda>(k, v). (k, PFloat (py_round (projr (py_div v (rnd (338639 / 10000)))) 2)))
      (filter (\<lambda>(k, v). v \<noteq> PNone) items))"
proof -
  have "for_items pressure_body items [] =
    Inr ([] @ map (\<lambda>(k, v). (k, PFloat (py_round (projr (py_div v (rnd (338639 / 10000)))) 2)))
      (filter (\<lambda>(k, v). v \<noteq> PNone) items))"
  proof (rule for_items_filter_map)
    fix k v res
    assume "(k, v) \<in> set items"
    then have conv: "v \<noteq> PNone \<longrightarrow> \<not> isl (to_float v)" using assms(2) by auto
    show "pressure_body k v res =
        (if v \<noteq> PNone
         then Inr (dict_set res k (PFloat (py_round (projr (py_div v (rnd (338639 / 10000)))) 2)))
         else Inr res)"
    proof (cases "v = PNone")
      case True
      then show ?thesis by (simp add: pressure_body_def)
    next
      case False
      then have "\<not> isl (py_div v (rnd (338639 / 10000)))" using conv py_div_hpa by blast
      then obtain q where "py_div v (rnd (338639 / 10000)) = Inr q"
        by (cases "py_div v (rnd (338639 / 10000))") auto
      then show ?thesis
        using False unfolding pressure_body_def HPA_FOR_ONE_INHG_def ROUNDED_TO_def by simp
    qed
  qed (use assms(1) in simp_all)
  then show ?thesis by simp
qed

lemma visibility_loop_converts:
  assumes "distinct (map fst items)"
    and "\<forall>(k, v) \<in> set items. v \<noteq> PNone \<longrightarrow> \<not> isl (to_float v)"
  shows "for_items (visibility_body c) items [] =
    Inr (map (\<lambda>(k, v). (k, PFloat (py_round (projr (py_mul v c)) 2)))
      (filter (\<lambda>(k, v). v \<noteq> PNone) items))"
proof -
  have "for_items (visibility_body c) items [] =
    Inr ([] @ map (\<lambda>(k, v). (k, PFloat (py_round (projr (py_mul v c)) 2)))
      (filter (\<lambda>(k, v). v \<noteq> PNone) items))"
  proof (rule for_items_filter_map)
    fix k v res
    assume "(k, v) \<in> set items"
    then have conv: "v \<noteq> PNone \<longrightarrow> \<not> isl (to_float v)" using assms(2) by auto
    show "visibility_body c k v res =
        (if v \<noteq> PNone then Inr (dict_set res k (PFloat (py_round (projr (py_mul v c)) 2)))
         else Inr res)"
    proof (cases "v = PNone")
      case True
      then show ?thesis by (simp add: visibility_body_def)
    next
      case False
      then have "\<not> isl (py_mul v c)" using conv py_mul_returns by blast
      then obtain p where "py_mul v c = Inr p" by (cases "py_mul v c") auto
      then show ?thesis
        using False unfolding visibility_body_def ROUNDED_TO_def by simp
    qed
  qed (use assms(1) in simp_all)
  then show ?thesis by simp
qed

section \<open>Values that do not convert, and the loops that raise\<close>

lemma to_float_big: "2 ^ 1024 - 2 ^ 970 \<le> \<bar>i\<bar> \<Longrightarrow> to_float (PInt i) = Inl OverflowError"
  by simp

lemma to_float_isl_iff:
  "isl (to_float v) \<longleftrightarrow> v = PNone \<or> (\<exists>i. v = PInt i \<and> 2 ^ 1024 - 2 ^ 970 \<le> \<bar>i\<bar>)"
  by (cases v) simp_all

lemma to_float_not_none: "v \<noteq> PNone \<Longrightarrow> to_float v = Inl e \<Longrightarrow> e = OverflowError"
  by (cases v) (auto split: if_splits)

lemma beaufort_body_errors: "beaufort_body k v res = Inl e \<Longrightarrow> e = TypeError"
  by (auto simp: beaufort_body_def split: if_splits sum.splits dest: cmp_operand_errors)

lemma beaufort_null_raises:
  assumes "(k, PNone) \<in> set items" and "k \<noteq> ''deg''"
  shows "for_items beaufort_body items acc = Inl TypeError"
proof -
  have "isl (for_items beaufort_body items acc)"
    using assms(1) by (rule for_items_raises) (simp add: beaufort_body_def assms(2))
  then obtain e where e: "for_items beaufort_body items acc = Inl e"
    by (cases "for_items beaufort_body items acc") auto
  then have "e = TypeError"
    using for_items_error_source [OF e] beaufort_body_errors by fastforce
  then show ?thesis using e by simp
qed

lemma metric_wind_dict_to_beaufort_null:
  assumes "\<exists>(k, v) \<in> set (h ! d). k \<noteq> ''deg'' \<and> v = PNone"
  shows "metric_wind_dict_to_beaufort h d = Inl TypeError"
proof -
  obtain k where "(k, PNone) \<in> set (h ! d)" "k \<noteq> ''deg''" using assms by auto
  then have "for_items beaufort_body (h ! d) [] = Inl TypeError" by (rule beaufort_null_raises)
  then show ?thesis by (simp add: metric_wind_dict_to_beaufort_def)
qed

lemma wind_body_raises: "k \<noteq> ''deg'' \<Longrightarrow> to_float v = Inl e \<Longrightarrow> wind_body c k v res = Inl e"
  by (simp add: wind_body_def py_mul_def)

lemma wind_loop_first_error:
  assumes "\<forall>(k', v') \<in> set pre. k' \<noteq> ''deg'' \<longrightarrow> \<not> isl (to_float v')"
    and "k \<noteq> ''deg''" and "to_float v = Inl e"
  shows "for_items (wind_body c) (pre @ (k, v) # post) acc = Inl e"
proof (rule for_items_error)
  fix k' v' res
  assume "(k', v') \<in> set pre"
  then have "k' \<noteq> ''deg'' \<longrightarrow> \<not> isl (to_float v')" using assms(1) by auto
  then show "\<exists>res'. wind_body c k' v' res = Inr res'"
    by (simp add: wind_body_converts)
next
  fix res
  show "wind_body c k v res = Inl e" using assms(2,3) by (rule wind_body_raises)
qed

lemma wind_loop_raises:
  assumes "(k, v) \<in> set items" and "k \<noteq> ''deg''" and "isl (to_float v)"
  shows "isl (for_items (wind_body c) items acc)"
proof (rule for_items_raises [OF assms(1)])
  fix res
  obtain e where "to_float v = Inl e" using assms(3) by (cases "to_float v") auto
  then show "isl (wind_body c k v res)" using assms(2) by (simp add: wind_body_raises)
qed

lemma py_div_hpa_errors:
  "py_div v (rnd (338639 / 10000)) = Inl e \<Longrightarrow> to_float v = Inl e"
  unfolding lit_hpa by (cases "to_float v") (simp_all add: py_div_def)

lemma pressure_body_errors: "pressure_body k v res = Inl e \<Longrightarrow> e = OverflowError"
  unfolding pressure_body_def HPA_FOR_ONE_INHG_def
  by (auto split: if_splits sum.splits dest!: py_div_hpa_errors to_float_not_none)

lemma visibility_body_overflow: "visibility_body c k v res = Inl e \<Longrightarrow> e = OverflowError"
  unfolding visibility_body_def py_mul_def
  by (auto split: if_splits sum.splits dest: to_float_not_none)

lemma pressure_loop_overflow:
  assumes "(k, PInt i) \<in> set items" and "2 ^ 1024 - 2 ^ 970 \<le> \<bar>i\<bar>"
  shows "for_items pressure_body items acc = Inl OverflowError"
proof -
  have "isl (for_items pressure_body items acc)"
    using assms(1)
    by (rule for_items_raises)
      (simp add: pressure_body_def py_div_def to_float_big [OF assms(2)] del: to_float.simps)
  then obtain e where e: "for_items pressure_body items acc = Inl e"
    by (cases "for_items pressure_body items acc") auto
  then have "e = OverflowError"
    using for_items_error_source [OF e] pressure_body_errors by fastforce
  then show ?thesis using e by simp
qed

lemma visibility_loop_overflow:
  assumes "(k, PInt i) \<in> set items" and "2 ^ 1024 - 2 ^ 970 \<le> \<bar>i\<bar>"
  shows "for_items (visibility_body c) items acc = Inl OverflowError"
proof -
  have "isl (for_items (visibility_body c) items acc)"
    using assms(1)
    by (rule for_items_raises)
      (simp add: visibility_body_def py_mul_def to_float_big [OF assms(2)] del: to_float.simps)
  then obtain e where e: "for_items (visibility_body c) items acc = Inl e"
    by (cases "for_items (visibility_body c) items acc") auto
  then have "e = OverflowError"
    using for_items_error_source [OF e] visibility_body_overflow by fastforce
  then show ?thesis using e by simp
qed

lemma kelvin_scalar_overflow:
  assumes "2 ^ 1024 - 2 ^ 970 \<le> i"
  shows "kelvin_to_celsius (PInt i) = Inl OverflowError"
    and "kelvin_to_fahrenheit (PInt i) = Inl OverflowError"
proof -
  have pos: "(0::int) \<le> 2 ^ 1024 - 2 ^ 970" by simp
  then have i: "0 \<le> i" "2 ^ 1024 - 2 ^ 970 \<le> \<bar>i\<bar>" using assms by linarith+
  show "kelvin_to_celsius (PInt i) = Inl OverflowError"
    using i by (simp add: kelvin_to_celsius_cases del: to_float.simps add: to_float_big)
  show "kelvin_to_fahrenheit (PInt i) = Inl OverflowError"
    using i by (simp add: kelvin_to_fahrenheit_cases del: to_float.simps add: to_float_big)
qed

lemma kelvin_scalar_none:
  "kelvin_to_celsius PNone = Inl TypeError" "kelvin_to_fahrenheit PNone = Inl TypeError"
  by (simp_all add: kelvin_to_celsius_cases kelvin_to_fahrenheit_cases)

lemma kelvin_dict_to_first_error:
  assumes "h ! d = pre @ (k, v) # post"
  shows "\<forall>(k', v') \<in> set pre. \<not> isl (kelvin_to_celsius v') \<Longrightarrow> kelvin_to_celsius v = Inl e \<Longrightarrow>
      kelvin_dict_to h d ''celsius'' = Inl e"
    and "\<forall>(k', v') \<in> set pre. \<not> isl (kelvin_to_fahrenheit v') \<Longrightarrow>
      kelvin_to_fahrenheit v = Inl e \<Longrightarrow> kelvin_dict_to h d ''fahrenheit'' = Inl e"
  using comprehension_first_error [of pre kelvin_to_celsius v e k post "[]"]
    comprehension_first_error [of pre kelvin_to_fahrenheit v e k post "[]"] assms
  by (simp_all add: kelvin_dict_to_def)

lemma kelvin_dict_to_raises:
  assumes "(k, v) \<in> set (h ! d)"
  shows "isl (kelvin_to_celsius v) \<Longrightarrow> isl (kelvin_dict_to h d ''celsius'')"
    and "isl (kelvin_to_fahrenheit v) \<Longrightarrow> isl (kelvin_dict_to h d ''fahrenheit'')"
proof -
  assume "isl (kelvin_to_celsius v)"
  then have "isl (for_items (comprehension_body kelvin_to_celsius) (h ! d) [])"
    using assms by (rule comprehension_raises [rotated])
  then show "isl (kelvin_dict_to h d ''celsius'')"
    by (cases "for_items (comprehension_body kelvin_to_celsius) (h ! d) []")
      (simp_all add: kelvin_dict_to_def)
next
  assume "isl (kelvin_to_fahrenheit v)"
  then have "isl (for_items (comprehension_body kelvin_to_fahrenheit) (h ! d) [])"
    using assms by (rule comprehension_raises [rotated])
  then show "isl (kelvin_dict_to h d ''fahrenheit'')"
    by (cases "for_items (comprehension_body kelvin_to_fahrenheit) (h ! d) []")
      (simp_all add: kelvin_dict_to_def)
qed

lemma kelvin_dict_to_errors:
  "kelvin_dict_to h d ''celsius'' = Inl e \<Longrightarrow>
     e = negative_temperature \<or> e = TypeError \<or> e = OverflowError"
  "kelvin_dict_to h d ''fahrenheit'' = Inl e \<Longrightarrow>
     e = negative_temperature \<or> e = TypeError \<or> e = OverflowError"
proof -
  assume "kelvin_dict_to h d ''celsius'' = Inl e"
  then have "for_items (comprehension_body kelvin_to_celsius) (h ! d) [] = Inl e"
    by (simp add: kelvin_dict_to_def split: sum.splits)
  then obtain v where "kelvin_to_celsius v = Inl e"
    using comprehension_error_source by fastforce
  then show "e = negative_temperature \<or> e = TypeError \<or> e = OverflowError"
    using kelvin_to_celsius_errors by blast
next
  assume "kelvin_dict_to h d ''fahrenheit'' = Inl e"
  then have "for_items (comprehension_body kelvin_to_fahrenheit) (h ! d) [] = Inl e"
    by (simp add: kelvin_dict_to_def split: sum.splits)
  then obtain v where "kelvin_to_fahrenheit v = Inl e"
    using comprehension_error_source by fastforce
  then show "e = negative_temperature \<or> e = TypeError \<or> e = OverflowError"
    using kelvin_to_fahrenheit_errors by blast
qed

lemma wind_dicts_return:
  assumes "distinct (map fst (h ! d))"
    and "\<forall>(k, v) \<in> set (h ! d). k \<noteq> ''deg'' \<longrightarrow> \<not> isl (to_float v)"
  shows "metric_wind_dict_to_imperial h d =
      Inr (length h, h @ [map (\<lambda>(k, v). (k, if k = ''deg'' then v
        else PFloat (fmul (projr (to_float v)) (rnd (223694 / 100000)))))  (h ! d)])
    \<and> metric_wind_dict_to_km_h h d =
      Inr (length h, h @ [map (\<lambda>(k, v). (k, if k = ''deg'' then v
        else PFloat (fmul (projr (to_float v)) (rnd (36 / 10))))) (h ! d)])
    \<and> metric_wind_dict_to_knots h d =
      Inr (length h, h @ [map (\<lambda>(k, v). (k, if k = ''deg'' then v
        else PFloat (fmul (projr (to_float v)) (rnd (194384 / 100000))))) (h ! d)])"
  unfolding metric_wind_dict_to_imperial_def metric_wind_dict_to_km_h_def
    metric_wind_dict_to_knots_def MILES_PER_HOUR_FOR_ONE_METER_PER_SEC_def
    KM_PER_HOUR_FOR_ONE_METER_PER_SEC_def KNOTS_FOR_ONE_METER_PER_SEC_def
  by (simp only: wind_loop_converts [OF assms] sum.case alloc_def simp_thms)

lemma pressure_visibility_dicts_return:
  assumes "distinct (map fst (h ! d))"
    and "\<forall>(k, v) \<in> set (h ! d). v \<noteq> PNone \<longrightarrow> \<not> isl (to_float v)"
  shows "metric_pressure_dict_to_inhg h d =
      Inr (length h, h @ [map (\<lambda>(k, v).
          (k, PFloat (py_round (projr (py_div v (rnd (338639 / 10000)))) 2)))
        (filter (\<lambda>(k, v). v \<noteq> PNone) (h ! d))])
    \<and> visibility_dict_to h d ''miles'' =
      Inr (length h, h @ [map (\<lambda>(k, v).
          (k, PFloat (py_round (projr (py_mul v (rnd (621371 / 1000000000)))) 2)))
        (filter (\<lambda>(k, v). v \<noteq> PNone) (h ! d))])
    \<and> visibility_dict_to h d ''kms'' =
      Inr (length h, h @ [map (\<lambda>(k, v).
          (k, PFloat (py_round (projr (py_mul v (rnd (1 / 1000)))) 2)))
        (filter (\<lambda>(k, v). v \<noteq> PNone) (h ! d))])
    \<and> visibility_dict_to_default h d = visibility_dict_to h d ''miles''"
proof (intro conjI)
  show "metric_pressure_dict_to_inhg h d =
      Inr (length h, h @ [map (\<lambda>(k, v).
          (k, PFloat (py_round (projr (py_div v (rnd (338639 / 10000)))) 2)))
        (filter (\<lambda>(k, v). v \<noteq> PNone) (h ! d))])"
    unfolding metric_pressure_dict_to_inhg_def
    by (simp only: pressure_loop_converts [OF assms] sum.case alloc_def)
next
  show "visibility_dict_to h d ''miles'' =
      Inr (length h, h @ [map (\<lambda>(k, v).
          (k, PFloat (py_round (projr (py_mul v (rnd (621371 / 1000000000)))) 2)))
        (filter (\<lambda>(k, v). v \<noteq> PNone) (h ! d))])"
    unfolding visibility_dict_to_def MILE_FOR_ONE_METER_def
    by (simp only: visibility_loop_converts [OF assms] sum.case alloc_def if_True refl)
next
  have kms: "''kms'' \<noteq> ''miles''" by simp
  show "visibility_dict_to h d ''kms'' =
      Inr (length h, h @ [map (\<lambda>(k, v).
          (k, PFloat (py_round (projr (py_mul v (rnd (1 / 1000)))) 2)))
        (filter (\<lambda>(k, v). v \<noteq> PNone) (h ! d))])"
    unfolding visibility_dict_to_def KMS_FOR_ONE_METER_def
    by (simp only: visibility_loop_converts [OF assms] sum.case alloc_def kms if_False if_True
        refl)
next
  show "visibility_dict_to_default h d = visibility_dict_to h d ''miles''"
    by (rule visibility_dict_to_default_def)
qed

lemma wind_dicts_first_error:
  assumes "h ! d = pre @ (k, v) # post" and "k \<noteq> ''deg''"
    and "\<forall>(k', v') \<in> set pre. k' \<noteq> ''deg'' \<longrightarrow> \<not> isl (to_float v')"
    and "to_float v = Inl e"
  shows "metric_wind_dict_to_imperial h d = Inl e \<and> metric_wind_dict_to_km_h h d = Inl e
    \<and> metric_wind_dict_to_knots h d = Inl e"
  using assms(1) wind_loop_first_error [OF assms(3,2,4)]
  by (simp add: metric_wind_dict_to_imperial_def metric_wind_dict_to_km_h_def
      metric_wind_dict_to_knots_def)

lemma wind_dicts_raise:
  assumes "(k, v) \<in> set (h ! d)" and "k \<noteq> ''deg''" and "isl (to_float v)"
  shows "isl (metric_wind_dict_to_imperial h d) \<and> isl (metric_wind_dict_to_km_h h d)
    \<and> isl (metric_wind_dict_to_knots h d)"
proof -
  have raise: "isl (for_items (wind_body c) (h ! d) [])" for c
    using assms by (rule wind_loop_raises)
  have lift: "isl x \<Longrightarrow> isl (case x of Inl e \<Rightarrow> Inl e | Inr result \<Rightarrow> Inr (alloc h result))"
    for x :: "error + pydict"
    by (cases x) simp_all
  show ?thesis
    unfolding metric_wind_dict_to_imperial_def metric_wind_dict_to_km_h_def
      metric_wind_dict_to_knots_def
    by (intro conjI lift raise)
qed

lemma pressure_visibility_dicts_overflow:
  assumes "(k, PInt i) \<in> set (h ! d)" and "2 ^ 1024 - 2 ^ 970 \<le> \<bar>i\<bar>"
  shows "metric_pressure_dict_to_inhg h d = Inl OverflowError
    \<and> visibility_dict_to h d ''miles'' = Inl OverflowError
    \<and> visibility_dict_to h d ''kms'' = Inl OverflowError
    \<and> visibility_dict_to_default h d = Inl OverflowError"
  using pressure_loop_overflow [OF assms] visibility_loop_overflow [OF assms]
  by (simp add: metric_pressure_dict_to_inhg_def visibility_dict_to_def
      visibility_dict_to_default_def)

section \<open>The calls on the store: what they leave and what they give\<close>

lemma for_items_store_fresh:
  "\<exists>p. for_items_store body items (length h) (h @ [acc]) =
     (case for_items body items acc of
        Inl e \<Rightarrow> (Some e, h @ [p])
      | Inr r \<Rightarrow> (None, h @ [r]))"
proof (induction items arbitrary: acc)
  case Nil
  then show ?case by simp
next
  case (Cons kv items)
  obtain k v where kv: "kv = (k, v)" by (cases kv)
  show ?case
  proof (cases "body k v acc")
    case (Inl e)
    then show ?thesis using kv by auto
  next
    case (Inr r)
    have "(h @ [acc])[length h := r] = h @ [r]" by simp
    then show ?thesis using Cons.IH [of r] Inr kv by simp
  qed
qed

lemma loop_call_fresh:
  assumes "d < length h"
  shows "\<exists>p. (case alloc h [] of (result, h1) \<Rightarrow> run_loop body h1 d result) =
     (case for_items body (h ! d) [] of
        Inl e \<Rightarrow> (Inl e, h @ [p])
      | Inr r \<Rightarrow> (Inr (length h), h @ [r]))"
proof -
  have same: "(h @ [[]]) ! d = h ! d" using assms by (simp add: nth_append)
  obtain p where "for_items_store body (h ! d) (length h) (h @ [[]]) =
     (case for_items body (h ! d) [] of
        Inl e \<Rightarrow> (Some e, h @ [p])
      | Inr r \<Rightarrow> (None, h @ [r]))"
    using for_items_store_fresh by blast
  then have "(case alloc h [] of (result, h1) \<Rightarrow> run_loop body h1 d result) =
     (case for_items body (h ! d) [] of
        Inl e \<Rightarrow> (Inl e, h @ [p])
      | Inr r \<Rightarrow> (Inr (length h), h @ [r]))"
    by (simp add: alloc_def run_loop_def same split: sum.splits)
  then show ?thesis ..
qed

lemma loop_call_frame:
  assumes "d < length h"
  shows "take (length h) (snd (case alloc h [] of (result, h1) \<Rightarrow> run_loop body h1 d result)) = h"
proof -
  obtain p where "(case alloc h [] of (result, h1) \<Rightarrow> run_loop body h1 d result) =
     (case for_items body (h ! d) [] of
        Inl e \<Rightarrow> (Inl e, h @ [p])
      | Inr r \<Rightarrow> (Inr (length h), h @ [r]))"
    using loop_call_fresh [OF assms] by blast
  then show ?thesis by (simp split: sum.splits)
qed

lemma loop_call_outcome:
  assumes "d < length h"
  shows "outcome (case alloc h [] of (result, h1) \<Rightarrow> run_loop body h1 d result) =
    for_items body (h ! d) []"
proof -
  obtain p where "(case alloc h [] of (result, h1) \<Rightarrow> run_loop body h1 d result) =
     (case for_items body (h ! d) [] of
        Inl e \<Rightarrow> (Inl e, h @ [p])
      | Inr r \<Rightarrow> (Inr (length h), h @ [r]))"
    using loop_call_fresh [OF assms] by blast
  then show ?thesis by (simp add: outcome_def split: sum.splits)
qed

lemma py_eq_refl: "v \<noteq> PFloat NaN \<Longrightarrow> py_eq v v"
proof (cases v)
  case (PFloat f)
  assume "v \<noteq> PFloat NaN"
  then show ?thesis using PFloat by (cases f) simp_all
qed simp_all

lemma dict_eq_same_items:
  assumes "distinct (map fst a)" and "distinct (map fst b)" and "set a = set b"
    and "list_all (\<lambda>(k, v). v \<noteq> PFloat NaN) a"
  shows "dict_eq a b"
proof -
  have "distinct a" "distinct b" using assms(1,2) by (simp_all add: distinct_map)
  then have "length a = length b" using assms(3) by (metis distinct_card)
  moreover have "list_all (\<lambda>(k, v). case map_of b k of None \<Rightarrow> False | Some w \<Rightarrow> py_eq v w) a"
    unfolding list_all_iff
  proof (clarify)
    fix k v
    assume kv: "(k, v) \<in> set a"
    then have "map_of b k = Some v" using assms(2,3) by simp
    moreover have "v \<noteq> PFloat NaN" using assms(4) kv by (auto simp: list_all_iff)
    ultimately show "case map_of b k of None \<Rightarrow> False | Some w \<Rightarrow> py_eq v w"
      by (simp add: py_eq_refl)
  qed
  ultimately show ?thesis by (simp add: dict_eq_def)
qed

text \<open>
  A loop that converts the items it keeps when all are good, and raises when one
  is not, is pure.
\<close>

lemma loop_pure:
  assumes f: "\<And>h d. f h d = (case alloc h [] of (result, h1) \<Rightarrow> run_loop body h1 d result)"
    and ret: "\<And>items. distinct (map fst items) \<Longrightarrow> \<forall>x \<in> set items. good x \<Longrightarrow>
      for_items body items [] = Inr (map cv (filter keep items))"
    and err: "\<And>items x. x \<in> set items \<Longrightarrow> \<not> good x \<Longrightarrow> isl (for_items body items [])"
    and keys: "\<And>x. fst (cv x) = fst x"
    and d: "d < length h" "d' < length h'"
    and dist: "distinct (map fst (h ! d))" "distinct (map fst (h' ! d'))"
  shows "pure_call f h d h' d'"
proof -
  have out: "outcome (f h d) = for_items body (h ! d) []"
    "outcome (f h' d') = for_items body (h' ! d') []"
    using d by (simp_all add: f loop_call_outcome)
  have frame: "take (length h) (snd (f h d)) = h"
    using d(1) by (simp add: f loop_call_frame)
  have same: "same_result (outcome (f h d)) (outcome (f h' d'))"
    if items: "set (h' ! d') = set (h ! d)"
  proof (cases "\<forall>x \<in> set (h ! d). good x")
    case True
    let ?a = "map cv (filter keep (h ! d))" and ?b = "map cv (filter keep (h' ! d'))"
    have a: "outcome (f h d) = Inr ?a" using ret [OF dist(1) True] out by simp
    have b: "outcome (f h' d') = Inr ?b" using ret [OF dist(2)] True items out by simp
    have ka: "map fst ?a = map fst (filter keep (h ! d))" by (simp add: keys comp_def)
    have kb: "map fst ?b = map fst (filter keep (h' ! d'))" by (simp add: keys comp_def)
    have "distinct (map fst ?a)" "distinct (map fst ?b)"
      unfolding ka kb using dist by (simp_all add: distinct_map_filter)
    moreover have "set ?a = set ?b" using items by simp
    ultimately have "list_all (\<lambda>(k, v). v \<noteq> PFloat NaN) ?a \<longrightarrow> dict_eq ?a ?b"
      using dict_eq_same_items by blast
    then show ?thesis using a b \<open>set ?a = set ?b\<close> by simp
  next
    case False
    then obtain x where x: "x \<in> set (h ! d)" "\<not> good x" by blast
    then have "isl (for_items body (h ! d) [])" by (rule err)
    moreover have "isl (for_items body (h' ! d') [])" using x items by (intro err [of x]) simp_all
    ultimately show ?thesis
      unfolding out
      by (cases "for_items body (h ! d) []"; cases "for_items body (h' ! d') []") simp_all
  qed
  show ?thesis unfolding pure_call_def using frame out same by simp
qed

lemma beaufort_loop_numeric:
  assumes "distinct (map fst items)"
    and "\<forall>(k, v) \<in> set items. k \<noteq> ''deg'' \<longrightarrow> v \<noteq> PNone"
  shows "for_items beaufort_body items [] =
    Inr (map (\<lambda>(k, v). (k, if k = ''deg'' then v else PInt (beaufort_level (num v)))) items)"
proof (rule for_items_map)
  fix k v res
  assume "(k, v) \<in> set items"
  then have "k \<noteq> ''deg'' \<longrightarrow> v \<noteq> PNone" using assms(2) by auto
  then show "beaufort_body k v res =
      Inr (dict_set res k (if k = ''deg'' then v else PInt (beaufort_level (num v))))"
    by (rule beaufort_body_numeric)
qed (rule assms(1))

lemma wind_store_pure:
  assumes f: "\<And>h d. f h d = (case alloc h [] of (result, h1) \<Rightarrow> run_loop (wind_body c) h1 d result)"
    and "d < length h" "d' < length h'"
    and "distinct (map fst (h ! d))" "distinct (map fst (h' ! d'))"
  shows "pure_call f h d h' d'"
proof (rule loop_pure [where body = "wind_body c"
      and good = "\<lambda>(k, v). k \<noteq> ''deg'' \<longrightarrow> \<not> isl (to_float v)"
      and keep = "\<lambda>_. True"
      and cv = "\<lambda>(k, v). (k, if k = ''deg'' then v else PFloat (fmul (projr (to_float v)) c))"])
  fix items :: pydict
  assume "distinct (map fst items)"
    and "\<forall>x \<in> set items. case x of (k, v) \<Rightarrow> k \<noteq> ''deg'' \<longrightarrow> \<not> isl (to_float v)"
  then show "for_items (wind_body c) items [] =
      Inr (map (\<lambda>(k, v). (k, if k = ''deg'' then v else PFloat (fmul (projr (to_float v)) c)))
        (filter (\<lambda>_. True) items))"
    using wind_loop_converts [of items c] by simp
next
  fix items :: pydict and x
  assume x: "x \<in> set items"
    and bad: "\<not> (case x of (k, v) \<Rightarrow> k \<noteq> ''deg'' \<longrightarrow> \<not> isl (to_float v))"
  obtain k v where kv: "x = (k, v)" by (cases x)
  then have "k \<noteq> ''deg''" "isl (to_float v)" using bad by simp_all
  then show "isl (for_items (wind_body c) items [])"
    using x kv wind_loop_raises [of k v items c "[]"] by simp
qed (use assms in \<open>simp_all add: split_def\<close>)

lemma beaufort_store_pure:
  assumes "d < length h" "d' < length h'"
    and "distinct (map fst (h ! d))" "distinct (map fst (h' ! d'))"
  shows "pure_call metric_wind_dict_to_beaufort_store h d h' d'"
proof (rule loop_pure [where body = beaufort_body
      and good = "\<lambda>(k, v). k \<noteq> ''deg'' \<longrightarrow> v \<noteq> PNone"
      and keep = "\<lambda>_. True"
      and cv = "\<lambda>(k, v). (k, if k = ''deg'' then v else PInt (beaufort_level (num v)))"])
  fix items :: pydict
  assume "distinct (map fst items)"
    and "\<forall>x \<in> set items. case x of (k, v) \<Rightarrow> k \<noteq> ''deg'' \<longrightarrow> v \<noteq> PNone"
  then show "for_items beaufort_body items [] =
      Inr (map (\<lambda>(k, v). (k, if k = ''deg'' then v else PInt (beaufort_level (num v))))
        (filter (\<lambda>_. True) items))"
    using beaufort_loop_numeric [of items] by simp
next
  fix items :: pydict and x
  assume x: "x \<in> set items"
    and bad: "\<not> (case x of (k, v) \<Rightarrow> k \<noteq> ''deg'' \<longrightarrow> v \<noteq> PNone)"
  obtain k v where kv: "x = (k, v)" by (cases x)
  then have "k \<noteq> ''deg''" "v = PNone" using bad by simp_all
  then have "for_items beaufort_body items [] = Inl TypeError"
    using x kv beaufort_null_raises [of k items "[]"] by simp
  then show "isl (for_items beaufort_body items [])" by simp
qed (use assms in \<open>simp_all add: split_def metric_wind_dict_to_beaufort_store_def\<close>)

lemma pressure_store_pure:
  assumes "d < length h" "d' < length h'"
    and "distinct (map fst (h ! d))" "distinct (map fst (h' ! d'))"
  shows "pure_call metric_pressure_dict_to_inhg_store h d h' d'"
proof (rule loop_pure [where body = pressure_body
      and good = "\<lambda>(k, v). v \<noteq> PNone \<longrightarrow> \<not> isl (to_float v)"
      and keep = "\<lambda>(k, v). v \<noteq> PNone"
      and cv = "\<lambda>(k, v). (k, PFloat (py_round (projr (py_div v (rnd (338639 / 10000)))) 2))"])
  fix items :: pydict
  assume "distinct (map fst items)"
    and "\<forall>x \<in> set items. case x of (k, v) \<Rightarrow> v \<noteq> PNone \<longrightarrow> \<not> isl (to_float v)"
  then show "for_items pressure_body items [] =
      Inr (map (\<lambda>(k, v). (k, PFloat (py_round (projr (py_div v (rnd (338639 / 10000)))) 2)))
        (filter (\<lambda>(k, v). v \<noteq> PNone) items))"
    by (rule pressure_loop_converts)
next
  fix items :: pydict and x
  assume x: "x \<in> set items"
    and bad: "\<not> (case x of (k, v) \<Rightarrow> v \<noteq> PNone \<longrightarrow> \<not> isl (to_float v))"
  obtain k v where kv: "x = (k, v)" by (cases x)
  then have "v \<noteq> PNone" "isl (to_float v)" using bad by simp_all
  then obtain i where "x = (k, PInt i)" "2 ^ 1024 - 2 ^ 970 \<le> \<bar>i\<bar>"
    using kv to_float_isl_iff [of v] by auto
  then have "for_items pressure_body items [] = Inl OverflowError"
    using x pressure_loop_overflow by blast
  then show "isl (for_items pressure_body items [])" by simp
qed (use assms in \<open>simp_all add: split_def metric_pressure_dict_to_inhg_store_def\<close>)

lemma visibility_store_pure:
  assumes f: "\<And>h d. f h d =
      (case alloc h [] of (result, h1) \<Rightarrow> run_loop (visibility_body c) h1 d result)"
    and "d < length h" "d' < length h'"
    and "distinct (map fst (h ! d))" "distinct (map fst (h' ! d'))"
  shows "pure_call f h d h' d'"
proof (rule loop_pure [where body = "visibility_body c"
      and good = "\<lambda>(k, v). v \<noteq> PNone \<longrightarrow> \<not> isl (to_float v)"
      and keep = "\<lambda>(k, v). v \<noteq> PNone"
      and cv = "\<lambda>(k, v). (k, PFloat (py_round (projr (py_mul v c)) 2))"])
  fix items :: pydict
  assume "distinct (map fst items)"
    and "\<forall>x \<in> set items. case x of (k, v) \<Rightarrow> v \<noteq> PNone \<longrightarrow> \<not> isl (to_float v)"
  then show "for_items (visibility_body c) items [] =
      Inr (map (\<lambda>(k, v). (k, PFloat (py_round (projr (py_mul v c)) 2)))
        (filter (\<lambda>(k, v). v \<noteq> PNone) items))"
    by (rule visibility_loop_converts)
next
  fix items :: pydict and x
  assume x: "x \<in> set items"
    and bad: "\<not> (case x of (k, v) \<Rightarrow> v \<noteq> PNone \<longrightarrow> \<not> isl (to_float v))"
  obtain k v where kv: "x = (k, v)" by (cases x)
  then have "v \<noteq> PNone" "isl (to_float v)" using bad by simp_all
  then obtain i where "x = (k, PInt i)" "2 ^ 1024 - 2 ^ 970 \<le> \<bar>i\<bar>"
    using kv to_float_isl_iff [of v] by auto
  then have "for_items (visibility_body c) items [] = Inl OverflowError"
    using x visibility_loop_overflow by blast
  then show "isl (for_items (visibility_body c) items [])" by simp
qed (use assms in \<open>simp_all add: split_def\<close>)

lemma comprehension_store_pure:
  assumes f: "\<And>h d. f h d =
      (case alloc h [] of (result, h1) \<Rightarrow> run_loop (comprehension_body g) h1 d result)"
    and "d < length h" "d' < length h'"
    and "distinct (map fst (h ! d))" "distinct (map fst (h' ! d'))"
  shows "pure_call f h d h' d'"
proof (rule loop_pure [where body = "comprehension_body g"
      and good = "\<lambda>(k, v). \<not> isl (g v)"
      and keep = "\<lambda>_. True"
      and cv = "\<lambda>(k, v). (k, projr (g v))"])
  fix items :: pydict
  assume "distinct (map fst items)" and "\<forall>x \<in> set items. case x of (k, v) \<Rightarrow> \<not> isl (g v)"
  then show "for_items (comprehension_body g) items [] =
      Inr (map (\<lambda>(k, v). (k, projr (g v))) (filter (\<lambda>_. True) items))"
    using comprehension_returns [of items g] by simp
next
  fix items :: pydict and x
  assume x: "x \<in> set items" and bad: "\<not> (case x of (k, v) \<Rightarrow> \<not> isl (g v))"
  obtain k v where kv: "x = (k, v)" by (cases x)
  then have "isl (g v)" using bad by simp
  then show "isl (for_items (comprehension_body g) items [])"
    using x kv comprehension_raises [of k v items g "[]"] by simp
qed (use assms in \<open>simp_all add: split_def\<close>)

lemma kelvin_dict_to_store_pure:
  assumes "d < length h" "d' < length h'"
    and "distinct (map fst (h ! d))" "distinct (map fst (h' ! d'))"
  shows "pure_call (\<lambda>h d. kelvin_dict_to_store h d u) h d h' d'"
proof -
  consider "u = ''kelvin''" | "u = ''celsius''" | "u = ''fahrenheit''"
    | "u \<noteq> ''kelvin''" "u \<noteq> ''celsius''" "u \<noteq> ''fahrenheit''" by blast
  then show ?thesis
  proof cases
    case 1
    have "same_result (Inr (h ! d)) (Inr (h' ! d'))" if "set (h' ! d') = set (h ! d)"
      using that dict_eq_same_items [OF assms(3,4)] by simp
    then show ?thesis
      by (simp add: pure_call_def kelvin_dict_to_store_def 1 outcome_def)
  next
    case 2
    show ?thesis
      by (rule comprehension_store_pure [where g = kelvin_to_celsius])
        (use assms in \<open>simp_all add: kelvin_dict_to_store_def 2\<close>)
  next
    case 3
    show ?thesis
      by (rule comprehension_store_pure [where g = kelvin_to_fahrenheit])
        (use assms in \<open>simp_all add: kelvin_dict_to_store_def 3\<close>)
  next
    case 4
    then show ?thesis
      by (simp add: pure_call_def kelvin_dict_to_store_def outcome_def)
  qed
qed

lemma visibility_dict_to_store_pure:
  assumes "d < length h" "d' < length h'"
    and "distinct (map fst (h ! d))" "distinct (map fst (h' ! d'))"
  shows "pure_call (\<lambda>h d. visibility_dict_to_store h d u) h d h' d'"
proof -
  consider "u = ''miles''" | "u = ''kms''" | "u \<noteq> ''miles''" "u \<noteq> ''kms''" by blast
  then show ?thesis
  proof cases
    case 1
    show ?thesis
      by (rule visibility_store_pure [where c = MILE_FOR_ONE_METER])
        (use assms in \<open>simp_all add: visibility_dict_to_store_def 1\<close>)
  next
    case 2
    show ?thesis
      by (rule visibility_store_pure [where c = KMS_FOR_ONE_METER])
        (use assms in \<open>simp_all add: visibility_dict_to_store_def 2\<close>)
  next
    case 3
    then show ?thesis
      by (simp add: pure_call_def visibility_dict_to_store_def outcome_def alloc_def)
  qed
qed

text \<open>The calls on the store give what the conversions above give.\<close>

lemma loop_store_outcome:
  assumes "d < length h"
  shows "outcome (case alloc h [] of (result, h1) \<Rightarrow> run_loop body h1 d result) =
    (case (case for_items body (h ! d) [] of
             Inl e \<Rightarrow> Inl e
           | Inr result \<Rightarrow> Inr (alloc h result)) of
       Inl e \<Rightarrow> Inl e
     | Inr (r, h') \<Rightarrow> Inr (h' ! r))"
  unfolding loop_call_outcome [OF assms] by (simp add: alloc_def split: sum.splits)

lemma store_outcomes:
  assumes "d < length h"
  shows "outcome (metric_wind_dict_to_imperial_store h d) =
      (case metric_wind_dict_to_imperial h d of Inl e \<Rightarrow> Inl e | Inr (r, h') \<Rightarrow> Inr (h' ! r))"
    and "outcome (metric_wind_dict_to_km_h_store h d) =
      (case metric_wind_dict_to_km_h h d of Inl e \<Rightarrow> Inl e | Inr (r, h') \<Rightarrow> Inr (h' ! r))"
    and "outcome (metric_wind_dict_to_knots_store h d) =
      (case metric_wind_dict_to_knots h d of Inl e \<Rightarrow> Inl e | Inr (r, h') \<Rightarrow> Inr (h' ! r))"
    and "outcome (metric_wind_dict_to_beaufort_store h d) =
      (case metric_wind_dict_to_beaufort h d of Inl e \<Rightarrow> Inl e | Inr (r, h') \<Rightarrow> Inr (h' ! r))"
    and "outcome (metric_pressure_dict_to_inhg_store h d) =
      (case metric_pressure_dict_to_inhg h d of Inl e \<Rightarrow> Inl e | Inr (r, h') \<Rightarrow> Inr (h' ! r))"
    and "outcome (kelvin_dict_to_store h d u) =
      (case kelvin_dict_to h d u of Inl e \<Rightarrow> Inl e | Inr (r, h') \<Rightarrow> Inr (h' ! r))"
    and "outcome (visibility_dict_to_store h d u) =
      (case visibility_dict_to h d u of Inl e \<Rightarrow> Inl e | Inr (r, h') \<Rightarrow> Inr (h' ! r))"
proof -
  note loop = loop_store_outcome [OF assms]
  show "outcome (metric_wind_dict_to_imperial_store h d) =
      (case metric_wind_dict_to_imperial h d of Inl e \<Rightarrow> Inl e | Inr (r, h') \<Rightarrow> Inr (h' ! r))"
    by (simp only: metric_wind_dict_to_imperial_store_def metric_wind_dict_to_imperial_def loop)
  show "outcome (metric_wind_dict_to_km_h_store h d) =
      (case metric_wind_dict_to_km_h h d of Inl e \<Rightarrow> Inl e | Inr (r, h') \<Rightarrow> Inr (h' ! r))"
    by (simp only: metric_wind_dict_to_km_h_store_def metric_wind_dict_to_km_h_def loop)
  show "outcome (metric_wind_dict_to_knots_store h d) =
      (case metric_wind_dict_to_knots h d of Inl e \<Rightarrow> Inl e | Inr (r, h') \<Rightarrow> Inr (h' ! r))"
    by (simp only: metric_wind_dict_to_knots_store_def metric_wind_dict_to_knots_def loop)
  show "outcome (metric_wind_dict_to_beaufort_store h d) =
      (case metric_wind_dict_to_beaufort h d of Inl e \<Rightarrow> Inl e | Inr (r, h') \<Rightarrow> Inr (h' ! r))"
    by (simp only: metric_wind_dict_to_beaufort_store_def metric_wind_dict_to_beaufort_def loop)
  show "outcome (metric_pressure_dict_to_inhg_store h d) =
      (case metric_pressure_dict_to_inhg h d of Inl e \<Rightarrow> Inl e | Inr (r, h') \<Rightarrow> Inr (h' ! r))"
    by (simp only: metric_pressure_dict_to_inhg_store_def metric_pressure_dict_to_inhg_def loop)
  show "outcome (kelvin_dict_to_store h d u) =
      (case kelvin_dict_to h d u of Inl e \<Rightarrow> Inl e | Inr (r, h') \<Rightarrow> Inr (h' ! r))"
  proof -
    consider "u = ''kelvin''" | "u = ''celsius''" | "u = ''fahrenheit''"
      | "u \<noteq> ''kelvin''" "u \<noteq> ''celsius''" "u \<noteq> ''fahrenheit''" by blast
    then show ?thesis
    proof cases
      case 1
      then show ?thesis by (simp add: kelvin_dict_to_store_def kelvin_dict_to_def outcome_def)
    next
      case 2
      have "outcome (kelvin_dict_to_store h d ''celsius'') =
          (case kelvin_dict_to h d ''celsius'' of Inl e \<Rightarrow> Inl e | Inr (r, h') \<Rightarrow> Inr (h' ! r))"
        unfolding kelvin_dict_to_store_def kelvin_dict_to_def
        using loop [of "comprehension_body kelvin_to_celsius"] by simp
      then show ?thesis using 2 by simp
    next
      case 3
      have "outcome (kelvin_dict_to_store h d ''fahrenheit'') =
          (case kelvin_dict_to h d ''fahrenheit'' of
             Inl e \<Rightarrow> Inl e | Inr (r, h') \<Rightarrow> Inr (h' ! r))"
        unfolding kelvin_dict_to_store_def kelvin_dict_to_def
        using loop [of "comprehension_body kelvin_to_fahrenheit"] by simp
      then show ?thesis using 3 by simp
    next
      case 4
      then show ?thesis by (simp add: kelvin_dict_to_store_def kelvin_dict_to_def outcome_def)
    qed
  qed
  show "outcome (visibility_dict_to_store h d u) =
      (case visibility_dict_to h d u of Inl e \<Rightarrow> Inl e | Inr (r, h') \<Rightarrow> Inr (h' ! r))"
  proof -
    consider "u = ''miles''" | "u = ''kms''" | "u \<noteq> ''miles''" "u \<noteq> ''kms''" by blast
    then show ?thesis
    proof cases
      case 1
      have "visibility_dict_to_store h d ''miles'' =
          (case alloc h [] of
             (result, h1) \<Rightarrow> run_loop (visibility_body MILE_FOR_ONE_METER) h1 d result)"
        by (simp add: visibility_dict_to_store_def)
      then have "outcome (visibility_dict_to_store h d ''miles'') =
          (case visibility_dict_to h d ''miles'' of
             Inl e \<Rightarrow> Inl e | Inr (r, h') \<Rightarrow> Inr (h' ! r))"
        using loop [of "visibility_body MILE_FOR_ONE_METER"] by (simp add: visibility_dict_to_def)
      then show ?thesis using 1 by simp
    next
      case 2
      have "visibility_dict_to_store h d ''kms'' =
          (case alloc h [] of
             (result, h1) \<Rightarrow> run_loop (visibility_body KMS_FOR_ONE_METER) h1 d result)"
        by (simp add: visibility_dict_to_store_def)
      then have "outcome (visibility_dict_to_store h d ''kms'') =
          (case visibility_dict_to h d ''kms'' of
             Inl e \<Rightarrow> Inl e | Inr (r, h') \<Rightarrow> Inr (h' ! r))"
        using loop [of "visibility_body KMS_FOR_ONE_METER"] by (simp add: visibility_dict_to_def)
      then show ?thesis using 2 by simp
    next
      case 3
      then show ?thesis
        by (simp add: visibility_dict_to_store_def visibility_dict_to_def outcome_def alloc_def)
    qed
  qed
qed

section \<open>The claims of the specification\<close>

text \<open>
  C1 (as amended). For every mapping \<open>d\<close> whose values under keys other than \<open>'deg'\<close>
  are numbers, \<open>metric_wind_dict_to_beaufort(d)\<close> returns a new mapping with the keys
  of \<open>d\<close>, in which every value under a key other than \<open>'deg'\<close> is replaced by its
  level in the table of the twelve upper bounds 0.2, 1.5, ..., 32.6 (levels 0 to 11,
  level 12 beyond the last bound and for a NaN), and the value under \<open>'deg'\<close> is copied.
  A value equal to an upper bound gets the lower level: 0.2 gives 0 and 1.5 gives 1.
  For every mapping with a null value under a key other than \<open>'deg'\<close> the call raises
  \<open>TypeError\<close>.
\<close>

theorem metric_wind_dict_to_beaufort_table:
  assumes "distinct (map fst (h ! d))"
  shows "((\<forall>(k, v) \<in> set (h ! d). k \<noteq> ''deg'' \<longrightarrow> v \<noteq> PNone) \<longrightarrow>
      metric_wind_dict_to_beaufort h d =
        Inr (length h, h @ [map (\<lambda>(k, v).
          (k, if k = ''deg'' then v else PInt (table_lookup beaufort_table (num v)))) (h ! d)]))
    \<and> ((\<exists>(k, v) \<in> set (h ! d). k \<noteq> ''deg'' \<and> v = PNone) \<longrightarrow>
      metric_wind_dict_to_beaufort h d = Inl TypeError)
    \<and> table_lookup beaufort_table (rnd (2 / 10)) = 0
    \<and> table_lookup beaufort_table (rnd (15 / 10)) = 1"
proof -
  have "table_lookup beaufort_table (rnd (2 / 10)) = 0"
    unfolding lit_0_2 beaufort_table_exact by simp
  moreover have "table_lookup beaufort_table (rnd (15 / 10)) = 1"
    unfolding lit_1_5 beaufort_table_exact by simp
  moreover have "metric_wind_dict_to_beaufort h d =
      Inr (length h, h @ [map (\<lambda>(k, v).
        (k, if k = ''deg'' then v else PInt (table_lookup beaufort_table (num v)))) (h ! d)])"
    if "\<forall>(k, v) \<in> set (h ! d). k \<noteq> ''deg'' \<longrightarrow> v \<noteq> PNone"
    using beaufort_numeric [OF assms that] unfolding beaufort_level_table by simp
  ultimately show ?thesis
    using metric_wind_dict_to_beaufort_null [of h d] by blast
qed

theorem metric_wind_dict_to_beaufort_table_witness:
  "metric_wind_dict_to_beaufort
     [[(''speed'', PFloat (Finite (1 / 2))), (''gust'', PInt 40), (''deg'', PInt 90)]] 0 =
   Inr (1, [[(''speed'', PFloat (Finite (1 / 2))), (''gust'', PInt 40), (''deg'', PInt 90)],
            [(''speed'', PInt 1), (''gust'', PInt 12), (''deg'', PInt 90)]])
   \<and> metric_wind_dict_to_beaufort
     [[(''speed'', PFloat (Finite (1 / 2))), (''deg'', PInt 90), (''gust'', PNone)]] 0 =
   Inl TypeError"
  using metric_wind_dict_to_beaufort_table
    [of "[[(''speed'', PFloat (Finite (1 / 2))), (''gust'', PInt 40), (''deg'', PInt 90)]]" 0]
    metric_wind_dict_to_beaufort_table
    [of "[[(''speed'', PFloat (Finite (1 / 2))), (''deg'', PInt 90), (''gust'', PNone)]]" 0]
  by (simp add: beaufort_table_exact)

text \<open>
  C1 as stated fails on a mapping with a null value under a key other than \<open>'deg'\<close>:
  the comparison raises \<open>TypeError\<close> and no mapping is returned.
\<close>

theorem metric_wind_dict_to_beaufort_null_counterexample:
  "metric_wind_dict_to_beaufort [[(''speed'', PNone)]] 0 = Inl TypeError"
  by (simp add: metric_wind_dict_to_beaufort_def beaufort_body_def)

text \<open>
  C9 (as amended). Whatever the mapping, every value that
  \<open>metric_wind_dict_to_beaufort\<close> produces under a key other than \<open>'deg'\<close> is an
  integer from 0 to 12. When no value under such a key is null, no error is raised and
  every speed not above 0.2, negative ones included, is mapped to level 0 (negative
  speeds raise no error); when some value under such a key is null, the call raises
  \<open>TypeError\<close> and maps no speed.
\<close>

theorem metric_wind_dict_to_beaufort_range:
  assumes "distinct (map fst (h ! d))"
  shows "(\<forall>r h'. metric_wind_dict_to_beaufort h d = Inr (r, h') \<longrightarrow>
        (\<forall>(k, v) \<in> set (h' ! r). k \<noteq> ''deg'' \<longrightarrow> (\<exists>n. v = PInt n \<and> 0 \<le> n \<and> n \<le> 12)))
    \<and> ((\<forall>(k, v) \<in> set (h ! d). k \<noteq> ''deg'' \<longrightarrow> v \<noteq> PNone) \<longrightarrow>
        (\<exists>res. metric_wind_dict_to_beaufort h d = Inr (length h, h @ [res]) \<and>
           (\<forall>(k, v) \<in> set (h ! d). k \<noteq> ''deg'' \<and> fle (num v) (rnd (2 / 10)) \<longrightarrow>
              (k, PInt 0) \<in> set res)))
    \<and> ((\<exists>(k, v) \<in> set (h ! d). k \<noteq> ''deg'' \<and> v = PNone) \<longrightarrow>
        metric_wind_dict_to_beaufort h d = Inl TypeError)"
proof (intro conjI allI impI)
  fix r h'
  assume ret: "metric_wind_dict_to_beaufort h d = Inr (r, h')"
  then obtain res where loop: "for_items beaufort_body (h ! d) [] = Inr res"
    and r: "r = length h" and h': "h' = h @ [res]"
    by (auto simp: metric_wind_dict_to_beaufort_def alloc_def split: sum.splits)
  have "\<forall>(k, v) \<in> set res. k \<noteq> ''deg'' \<longrightarrow> (\<exists>n. v = PInt n \<and> 0 \<le> n \<and> n \<le> 12)"
    using for_items_beaufort_levels [OF loop] by simp
  then show "\<forall>(k, v) \<in> set (h' ! r). k \<noteq> ''deg'' \<longrightarrow> (\<exists>n. v = PInt n \<and> 0 \<le> n \<and> n \<le> 12)"
    using r h' by simp
next
  assume numbers: "\<forall>(k, v) \<in> set (h ! d). k \<noteq> ''deg'' \<longrightarrow> v \<noteq> PNone"
  let ?res = "map (\<lambda>(k, v). (k, if k = ''deg'' then v else PInt (beaufort_level (num v)))) (h ! d)"
  have "metric_wind_dict_to_beaufort h d = Inr (length h, h @ [?res])"
    using beaufort_numeric [OF assms numbers] .
  moreover have "\<forall>(k, v) \<in> set (h ! d). k \<noteq> ''deg'' \<and> fle (num v) (rnd (2 / 10)) \<longrightarrow>
      (k, PInt 0) \<in> set ?res"
  proof (clarify)
    fix k v
    assume "(k, v) \<in> set (h ! d)" and "k \<noteq> ''deg''" and "fle (num v) (rnd (2 / 10))"
    then have "(k, if k = ''deg'' then v else PInt (beaufort_level (num v))) \<in> set ?res"
      and "beaufort_level (num v) = 0"
      by (force, simp add: beaufort_level_def)
    then show "(k, PInt 0) \<in> set ?res" using \<open>k \<noteq> ''deg''\<close> by simp
  qed
  ultimately show "\<exists>res. metric_wind_dict_to_beaufort h d = Inr (length h, h @ [res]) \<and>
      (\<forall>(k, v) \<in> set (h ! d). k \<noteq> ''deg'' \<and> fle (num v) (rnd (2 / 10)) \<longrightarrow> (k, PInt 0) \<in> set res)"
    by blast
next
  assume "\<exists>(k, v) \<in> set (h ! d). k \<noteq> ''deg'' \<and> v = PNone"
  then show "metric_wind_dict_to_beaufort h d = Inl TypeError"
    by (rule metric_wind_dict_to_beaufort_null)
qed

theorem metric_wind_dict_to_beaufort_range_witness:
  "\<exists>res. metric_wind_dict_to_beaufort [[(''speed'', PInt (- 3)), (''deg'', PInt 400)]] 0 =
       Inr (1, [[(''speed'', PInt (- 3)), (''deg'', PInt 400)], res])
     \<and> (''speed'', PInt 0) \<in> set res
     \<and> (\<forall>(k, v) \<in> set res. k \<noteq> ''deg'' \<longrightarrow> (\<exists>n. v = PInt n \<and> 0 \<le> n \<and> n \<le> 12))
     \<and> metric_wind_dict_to_beaufort [[(''deg'', PNone), (''gust'', PNone)]] 0 = Inl TypeError"
proof -
  let ?h = "[[(''speed'', PInt (- 3)), (''deg'', PInt 400)]]"
  have dist: "distinct (map fst (?h ! 0))" by simp
  have numbers: "\<forall>(k, v) \<in> set (?h ! 0). k \<noteq> ''deg'' \<longrightarrow> v \<noteq> PNone" by simp
  have low: "fle (num (PInt (- 3))) (rnd (2 / 10))" unfolding lit_0_2 by simp
  from metric_wind_dict_to_beaufort_range [OF dist] numbers
  obtain res where ret: "metric_wind_dict_to_beaufort ?h 0 = Inr (length ?h, ?h @ [res])"
    and zero: "\<forall>(k, v) \<in> set (?h ! 0). k \<noteq> ''deg'' \<and> fle (num v) (rnd (2 / 10)) \<longrightarrow>
      (k, PInt 0) \<in> set res"
    by blast
  have "(''speed'', PInt 0) \<in> set res" using zero low by simp
  moreover have "\<forall>(k, v) \<in> set res. k \<noteq> ''deg'' \<longrightarrow> (\<exists>n. v = PInt n \<and> 0 \<le> n \<and> n \<le> 12)"
    using metric_wind_dict_to_beaufort_range [OF dist] ret by force
  moreover have "metric_wind_dict_to_beaufort [[(''deg'', PNone), (''gust'', PNone)]] 0 =
      Inl TypeError"
    using metric_wind_dict_to_beaufort_range [of "[[(''deg'', PNone), (''gust'', PNone)]]" 0]
    by simp
  ultimately show ?thesis using ret by simp
qed

text \<open>
  C9 as stated fails on a mapping with a negative speed and a null value under another
  key: the call raises \<open>TypeError\<close>, and the negative speed is mapped to nothing.
\<close>

theorem metric_wind_dict_to_beaufort_negative_null_counterexample:
  "metric_wind_dict_to_beaufort [[(''speed'', PInt (- 3)), (''gust'', PNone)]] 0 = Inl TypeError"
  by (simp add: metric_wind_dict_to_beaufort_def beaufort_body_def beaufort_level_def lit_0_2)

text \<open>
  C2 (as amended). For every number \<open>k \<ge> 0\<close> that is a float, or an int that converts
  to a float (below \<open>2^1024 - 2^970\<close>), \<open>kelvin_to_celsius(k)\<close> returns
  \<open>round(k - 273.15, 2)\<close> and \<open>kelvin_to_fahrenheit(k)\<close> returns
  \<open>round((k - 273.15) * 1.8 + 32.0, 2)\<close>, as floats. On every int from
  \<open>2^1024 - 2^970\<close> on, both raise \<open>OverflowError\<close>.
\<close>

theorem kelvin_to_celsius_fahrenheit_rounded:
  "(cmp_operand k = Inr x \<and> fle (Finite 0) x \<and> to_float k = Inr y \<longrightarrow>
      kelvin_to_celsius k = Inr (PFloat (py_round (fsub y KELVIN_OFFSET) 2))
      \<and> kelvin_to_fahrenheit k = Inr (PFloat (py_round
          (fadd (fmul (fsub y KELVIN_OFFSET) FAHRENHEIT_DEGREE_SCALE) FAHRENHEIT_OFFSET) 2)))
   \<and> (2 ^ 1024 - 2 ^ 970 \<le> i \<longrightarrow>
      kelvin_to_celsius (PInt i) = Inl OverflowError
      \<and> kelvin_to_fahrenheit (PInt i) = Inl OverflowError)"
proof (intro conjI impI)
  assume a: "cmp_operand k = Inr x \<and> fle (Finite 0) x \<and> to_float k = Inr y"
  then have "\<not> flt x (Finite 0)" using fle_not_flt by blast
  then show "kelvin_to_celsius k = Inr (PFloat (py_round (fsub y KELVIN_OFFSET) 2))"
    and "kelvin_to_fahrenheit k = Inr (PFloat (py_round
          (fadd (fmul (fsub y KELVIN_OFFSET) FAHRENHEIT_DEGREE_SCALE) FAHRENHEIT_OFFSET) 2))"
    using a by (simp_all add: kelvin_to_celsius_cases kelvin_to_fahrenheit_cases)
next
  assume "2 ^ 1024 - 2 ^ 970 \<le> i"
  then show "kelvin_to_celsius (PInt i) = Inl OverflowError"
    and "kelvin_to_fahrenheit (PInt i) = Inl OverflowError"
    by (rule kelvin_scalar_overflow)+
qed

lemma celsius_of_300:
  "py_round (fsub (rnd 300) KELVIN_OFFSET) 2 = Finite (3778801562340557 / 140737488355328)"
  by (simp add: rnd_eval fsub_def KELVIN_OFFSET_def)

lemma fahrenheit_of_300:
  "py_round (fadd (fmul (fsub (rnd 300) KELVIN_OFFSET) FAHRENHEIT_DEGREE_SCALE)
     FAHRENHEIT_OFFSET) 2 = Finite (5652721219791749 / 70368744177664)"
  by (simp add: rnd_eval fsub_def KELVIN_OFFSET_def FAHRENHEIT_DEGREE_SCALE_def
      FAHRENHEIT_OFFSET_def)

theorem kelvin_to_celsius_fahrenheit_rounded_witness:
  "kelvin_to_celsius (PInt 300) = Inr (PFloat (Finite (3778801562340557 / 140737488355328)))
   \<and> kelvin_to_fahrenheit (PInt 300) = Inr (PFloat (Finite (5652721219791749 / 70368744177664)))
   \<and> kelvin_to_celsius (PInt (2 ^ 1024 - 2 ^ 970)) = Inl OverflowError
   \<and> kelvin_to_fahrenheit (PInt (2 ^ 1024 - 2 ^ 970)) = Inl OverflowError"
proof -
  have "cmp_operand (PInt 300) = Inr (Finite 300) \<and> fle (Finite 0) (Finite 300) \<and>
      to_float (PInt 300) = Inr (rnd 300)"
    by simp
  then have "kelvin_to_celsius (PInt 300) = Inr (PFloat (py_round (fsub (rnd 300) KELVIN_OFFSET) 2))
      \<and> kelvin_to_fahrenheit (PInt 300) = Inr (PFloat (py_round
          (fadd (fmul (fsub (rnd 300) KELVIN_OFFSET) FAHRENHEIT_DEGREE_SCALE)
             FAHRENHEIT_OFFSET) 2))"
    using kelvin_to_celsius_fahrenheit_rounded [of "PInt 300" "Finite 300" "rnd 300"] by blast
  moreover have "kelvin_to_celsius (PInt (2 ^ 1024 - 2 ^ 970)) = Inl OverflowError
      \<and> kelvin_to_fahrenheit (PInt (2 ^ 1024 - 2 ^ 970)) = Inl OverflowError"
    using kelvin_to_celsius_fahrenheit_rounded [where i = "2 ^ 1024 - 2 ^ 970"] by blast
  ultimately show ?thesis by (simp only: celsius_of_300 fahrenheit_of_300)
qed

text \<open>
  C2 as stated fails on a non-negative int too large for a float: the subtraction
  raises \<open>OverflowError\<close> and nothing is returned.
\<close>

theorem kelvin_to_celsius_overflow_counterexample:
  "cmp_operand (PInt (2 ^ 1024)) = Inr (Finite (2 ^ 1024)) \<and> fle (Finite 0) (Finite (2 ^ 1024))
   \<and> kelvin_to_celsius (PInt (2 ^ 1024)) = Inl OverflowError
   \<and> kelvin_to_fahrenheit (PInt (2 ^ 1024)) = Inl OverflowError"
  by (simp add: kelvin_to_celsius_cases kelvin_to_fahrenheit_cases)

text \<open>
  C3 (as amended). \<open>kelvin_to_celsius(k)\<close> and \<open>kelvin_to_fahrenheit(k)\<close> raise an
  invalid-argument error (\<open>ValueError\<close>) if and only if \<open>k\<close> is a negative number; for
  \<open>k \<ge> 0\<close> that is a float, or an int that converts to a float (below
  \<open>2^1024 - 2^970\<close>), neither raises.
\<close>

theorem kelvin_scalar_raises_iff_negative:
  "((\<exists>m. kelvin_to_celsius k = Inl (ValueError m)) \<longleftrightarrow>
      (\<exists>x. cmp_operand k = Inr x \<and> flt x (Finite 0)))
   \<and> ((\<exists>m. kelvin_to_fahrenheit k = Inl (ValueError m)) \<longleftrightarrow>
      (\<exists>x. cmp_operand k = Inr x \<and> flt x (Finite 0)))
   \<and> ((\<exists>x y. cmp_operand k = Inr x \<and> fle (Finite 0) x \<and> to_float k = Inr y) \<longrightarrow>
      (\<exists>r. kelvin_to_celsius k = Inr r) \<and> (\<exists>r. kelvin_to_fahrenheit k = Inr r))"
proof (intro conjI iffI impI)
  assume "\<exists>m. kelvin_to_celsius k = Inl (ValueError m)"
  then show "\<exists>x. cmp_operand k = Inr x \<and> flt x (Finite 0)"
    using kelvin_to_celsius_errors [of k] by auto
next
  assume "\<exists>x. cmp_operand k = Inr x \<and> flt x (Finite 0)"
  then show "\<exists>m. kelvin_to_celsius k = Inl (ValueError m)"
    using kelvin_to_celsius_negative [of k] by (auto simp: negative_temperature_def)
next
  assume "\<exists>m. kelvin_to_fahrenheit k = Inl (ValueError m)"
  then show "\<exists>x. cmp_operand k = Inr x \<and> flt x (Finite 0)"
    using kelvin_to_fahrenheit_errors [of k] by auto
next
  assume "\<exists>x. cmp_operand k = Inr x \<and> flt x (Finite 0)"
  then show "\<exists>m. kelvin_to_fahrenheit k = Inl (ValueError m)"
    using kelvin_to_fahrenheit_negative [of k] by (auto simp: negative_temperature_def)
next
  assume "\<exists>x y. cmp_operand k = Inr x \<and> fle (Finite 0) x \<and> to_float k = Inr y"
  then obtain x y where "cmp_operand k = Inr x" "\<not> flt x (Finite 0)" "to_float k = Inr y"
    using fle_not_flt by blast
  then show "\<exists>r. kelvin_to_celsius k = Inr r"
    by (simp add: kelvin_to_celsius_cases)
next
  assume "\<exists>x y. cmp_operand k = Inr x \<and> fle (Finite 0) x \<and> to_float k = Inr y"
  then obtain x y where "cmp_operand k = Inr x" "\<not> flt x (Finite 0)" "to_float k = Inr y"
    using fle_not_flt by blast
  then show "\<exists>r. kelvin_to_fahrenheit k = Inr r"
    by (simp add: kelvin_to_fahrenheit_cases)
qed

theorem kelvin_scalar_raises_iff_negative_witness:
  "(\<exists>m. kelvin_to_celsius (PInt (- 5)) = Inl (ValueError m))
   \<and> (\<exists>m. kelvin_to_fahrenheit (PFloat (Finite (- 1 / 2))) = Inl (ValueError m))
   \<and> (\<exists>r. kelvin_to_celsius (PInt 0) = Inr r)
   \<and> (\<exists>r. kelvin_to_fahrenheit (PInt 0) = Inr r)"
  using kelvin_scalar_raises_iff_negative [of "PInt (- 5)"]
    kelvin_scalar_raises_iff_negative [of "PFloat (Finite (- 1 / 2))"]
    kelvin_scalar_raises_iff_negative [of "PInt 0"]
  by simp

text \<open>
  C3 as stated fails on a non-negative int too large for a float: both functions
  raise, with \<open>OverflowError\<close>.
\<close>

theorem kelvin_scalar_overflow_counterexample:
  "\<not> flt (Finite (of_int (10 ^ 400))) (Finite 0)
   \<and> kelvin_to_celsius (PInt (10 ^ 400)) = Inl OverflowError
   \<and> kelvin_to_fahrenheit (PInt (10 ^ 400)) = Inl OverflowError"
  by (simp add: kelvin_to_celsius_cases kelvin_to_fahrenheit_cases)

text \<open>
  C4 (as amended). For every mapping \<open>d\<close>: \<open>kelvin_dict_to(d, 'kelvin')\<close> returns the
  input mapping itself (the same object, the heap untouched); when
  \<open>kelvin_to_celsius(v)\<close> returns for every value \<open>v\<close> of \<open>d\<close>,
  \<open>kelvin_dict_to(d, 'celsius')\<close> returns a new mapping with exactly the keys of \<open>d\<close>
  in which each value \<open>v\<close> is replaced by \<open>kelvin_to_celsius(v)\<close>; when
  \<open>kelvin_to_celsius\<close> raises on some value, the call raises, with the error of the
  first such value in the order of the mapping, and returns no mapping; and likewise
  for \<open>'fahrenheit'\<close> with \<open>kelvin_to_fahrenheit\<close>.
\<close>

theorem kelvin_dict_to_units:
  assumes "distinct (map fst (h ! d))"
  shows "kelvin_dict_to h d ''kelvin'' = Inr (d, h)
    \<and> ((\<forall>(k, v) \<in> set (h ! d). \<not> isl (kelvin_to_celsius v)) \<longrightarrow>
        kelvin_dict_to h d ''celsius'' =
          Inr (length h, h @ [map (\<lambda>(k, v). (k, projr (kelvin_to_celsius v))) (h ! d)]))
    \<and> ((\<forall>(k, v) \<in> set (h ! d). \<not> isl (kelvin_to_fahrenheit v)) \<longrightarrow>
        kelvin_dict_to h d ''fahrenheit'' =
          Inr (length h, h @ [map (\<lambda>(k, v). (k, projr (kelvin_to_fahrenheit v))) (h ! d)]))
    \<and> (\<forall>pre k v post e. h ! d = pre @ (k, v) # post \<and>
          (\<forall>(k', v') \<in> set pre. \<not> isl (kelvin_to_celsius v')) \<and> kelvin_to_celsius v = Inl e \<longrightarrow>
        kelvin_dict_to h d ''celsius'' = Inl e)
    \<and> (\<forall>pre k v post e. h ! d = pre @ (k, v) # post \<and>
          (\<forall>(k', v') \<in> set pre. \<not> isl (kelvin_to_fahrenheit v')) \<and>
          kelvin_to_fahrenheit v = Inl e \<longrightarrow>
        kelvin_dict_to h d ''fahrenheit'' = Inl e)
    \<and> ((\<exists>(k, v) \<in> set (h ! d). isl (kelvin_to_celsius v)) \<longrightarrow>
        isl (kelvin_dict_to h d ''celsius''))
    \<and> ((\<exists>(k, v) \<in> set (h ! d). isl (kelvin_to_fahrenheit v)) \<longrightarrow>
        isl (kelvin_dict_to h d ''fahrenheit''))"
proof (intro conjI allI impI)
  show "kelvin_dict_to h d ''kelvin'' = Inr (d, h)" by (simp add: kelvin_dict_to_def)
next
  assume "\<forall>(k, v) \<in> set (h ! d). \<not> isl (kelvin_to_celsius v)"
  then show "kelvin_dict_to h d ''celsius'' =
      Inr (length h, h @ [map (\<lambda>(k, v). (k, projr (kelvin_to_celsius v))) (h ! d)])"
    by (rule kelvin_dict_to_celsius_returns [OF assms])
next
  assume "\<forall>(k, v) \<in> set (h ! d). \<not> isl (kelvin_to_fahrenheit v)"
  then show "kelvin_dict_to h d ''fahrenheit'' =
      Inr (length h, h @ [map (\<lambda>(k, v). (k, projr (kelvin_to_fahrenheit v))) (h ! d)])"
    by (rule kelvin_dict_to_fahrenheit_returns [OF assms])
next
  fix pre k v post e
  assume "h ! d = pre @ (k, v) # post \<and>
    (\<forall>(k', v') \<in> set pre. \<not> isl (kelvin_to_celsius v')) \<and> kelvin_to_celsius v = Inl e"
  then show "kelvin_dict_to h d ''celsius'' = Inl e"
    using kelvin_dict_to_first_error(1) by blast
next
  fix pre k v post e
  assume "h ! d = pre @ (k, v) # post \<and>
    (\<forall>(k', v') \<in> set pre. \<not> isl (kelvin_to_fahrenheit v')) \<and> kelvin_to_fahrenheit v = Inl e"
  then show "kelvin_dict_to h d ''fahrenheit'' = Inl e"
    using kelvin_dict_to_first_error(2) by blast
next
  assume "\<exists>(k, v) \<in> set (h ! d). isl (kelvin_to_celsius v)"
  then show "isl (kelvin_dict_to h d ''celsius'')"
    using kelvin_dict_to_raises(1) by blast
next
  assume "\<exists>(k, v) \<in> set (h ! d). isl (kelvin_to_fahrenheit v)"
  then show "isl (kelvin_dict_to h d ''fahrenheit'')"
    using kelvin_dict_to_raises(2) by blast
qed

theorem kelvin_dict_to_units_witness:
  "kelvin_dict_to [[(''temp'', PInt 300), (''temp_max'', PInt 300)]] 0 ''kelvin'' =
       Inr (0, [[(''temp'', PInt 300), (''temp_max'', PInt 300)]])
   \<and> kelvin_dict_to [[(''temp'', PInt 300), (''temp_max'', PInt 300)]] 0 ''celsius'' =
       Inr (1, [[(''temp'', PInt 300), (''temp_max'', PInt 300)],
                [(''temp'', PFloat (Finite (3778801562340557 / 140737488355328))),
                 (''temp_max'', PFloat (Finite (3778801562340557 / 140737488355328)))]])
   \<and> kelvin_dict_to [[(''temp'', PInt 300), (''temp_max'', PInt 300)]] 0 ''fahrenheit'' =
       Inr (1, [[(''temp'', PInt 300), (''temp_max'', PInt 300)],
                [(''temp'', PFloat (Finite (5652721219791749 / 70368744177664))),
                 (''temp_max'', PFloat (Finite (5652721219791749 / 70368744177664)))]])
   \<and> kelvin_dict_to [[(''temp'', PInt 300), (''temp_max'', PInt (2 ^ 1024))]] 0 ''celsius'' =
       Inl OverflowError
   \<and> kelvin_dict_to [[(''temp'', PInt 300), (''temp_max'', PNone)]] 0 ''fahrenheit'' =
       Inl TypeError"
proof -
  let ?h = "[[(''temp'', PInt 300), (''temp_max'', PInt 300)]]"
  let ?big = "[[(''temp'', PInt 300), (''temp_max'', PInt (2 ^ 1024))]]"
  let ?null = "[[(''temp'', PInt 300), (''temp_max'', PNone)]]"
  have returns: "kelvin_dict_to ?h 0 ''kelvin'' = Inr (0, ?h)
      \<and> kelvin_dict_to ?h 0 ''celsius'' =
        Inr (1, ?h @ [[(''temp'', PFloat (Finite (3778801562340557 / 140737488355328))),
                       (''temp_max'', PFloat (Finite (3778801562340557 / 140737488355328)))]])
      \<and> kelvin_dict_to ?h 0 ''fahrenheit'' =
        Inr (1, ?h @ [[(''temp'', PFloat (Finite (5652721219791749 / 70368744177664))),
                       (''temp_max'', PFloat (Finite (5652721219791749 / 70368744177664)))]])"
    using kelvin_dict_to_units [of ?h 0]
    by (simp add: kelvin_to_celsius_300 kelvin_to_fahrenheit_300)
  have ok: "\<forall>(k', v') \<in> set [(''temp'', PInt 300)]. \<not> isl (kelvin_to_celsius v')"
    "\<forall>(k', v') \<in> set [(''temp'', PInt 300)]. \<not> isl (kelvin_to_fahrenheit v')"
    by (simp_all add: kelvin_to_celsius_300 kelvin_to_fahrenheit_300)
  have big: "?big ! 0 = [(''temp'', PInt 300)] @ (''temp_max'', PInt (2 ^ 1024)) # []"
    "kelvin_to_celsius (PInt (2 ^ 1024)) = Inl OverflowError"
    by (simp_all add: kelvin_scalar_overflow)
  have null: "?null ! 0 = [(''temp'', PInt 300)] @ (''temp_max'', PNone) # []"
    "kelvin_to_fahrenheit PNone = Inl TypeError"
    by (simp_all add: kelvin_scalar_none)
  have "distinct (map fst (?big ! 0))" by simp
  then have "kelvin_dict_to ?big 0 ''celsius'' = Inl OverflowError"
    using kelvin_dict_to_units [of ?big 0] big ok(1) by blast
  moreover have "distinct (map fst (?null ! 0))" by simp
  then have "kelvin_dict_to ?null 0 ''fahrenheit'' = Inl TypeError"
    using kelvin_dict_to_units [of ?null 0] null ok(2) by blast
  ultimately show ?thesis using returns by simp
qed

text \<open>
  C4 as stated fails on a mapping with a negative value: the conversions to Celsius
  and to Fahrenheit raise and return no mapping.
\<close>

theorem kelvin_dict_to_negative_counterexample:
  "kelvin_dict_to [[(''temp'', PInt (- 1))]] 0 ''celsius'' = Inl negative_temperature
   \<and> kelvin_dict_to [[(''temp'', PInt (- 1))]] 0 ''fahrenheit'' = Inl negative_temperature"
  by (simp add: kelvin_dict_to_def comprehension_body_def kelvin_to_celsius_cases
      kelvin_to_fahrenheit_cases)

text \<open>
  C5 (as amended). \<open>kelvin_dict_to(d, u)\<close> raises the invalid-unit error exactly
  when \<open>u\<close> is not one of \<open>'kelvin'\<close>, \<open>'celsius'\<close>, \<open>'fahrenheit'\<close>, and
  \<open>visibility_dict_to(d, u)\<close> raises an invalid-argument error exactly when \<open>u\<close> is
  not one of \<open>'miles'\<close>, \<open>'kms'\<close>, then the invalid-unit one; an error is an outcome
  without any output mapping.
\<close>

theorem invalid_unit_raised_iff:
  "(kelvin_dict_to h d u = Inl invalid_temperature_unit \<longleftrightarrow>
      u \<notin> {''kelvin'', ''celsius'', ''fahrenheit''})
   \<and> ((\<exists>m. visibility_dict_to h d u = Inl (ValueError m)) \<longleftrightarrow> u \<notin> {''miles'', ''kms''})
   \<and> (u \<notin> {''miles'', ''kms''} \<longrightarrow> visibility_dict_to h d u = Inl invalid_visibility_unit)"
proof (intro conjI iffI impI)
  assume "kelvin_dict_to h d u = Inl invalid_temperature_unit"
  then show "u \<notin> {''kelvin'', ''celsius'', ''fahrenheit''}"
    using kelvin_dict_to_no_unit_error [of u h d] by blast
next
  assume "u \<notin> {''kelvin'', ''celsius'', ''fahrenheit''}"
  then show "kelvin_dict_to h d u = Inl invalid_temperature_unit"
    by (simp add: kelvin_dict_to_def)
next
  assume "\<exists>m. visibility_dict_to h d u = Inl (ValueError m)"
  then obtain m where err: "visibility_dict_to h d u = Inl (ValueError m)" ..
  show "u \<notin> {''miles'', ''kms''}"
  proof
    assume "u \<in> {''miles'', ''kms''}"
    then obtain c where "for_items (visibility_body c) (h ! d) [] = Inl (ValueError m)"
      using err by (auto simp: visibility_dict_to_def split: sum.splits)
    then show False using visibility_loop_errors by blast
  qed
next
  assume "u \<notin> {''miles'', ''kms''}"
  then show "\<exists>m. visibility_dict_to h d u = Inl (ValueError m)"
    by (simp add: visibility_dict_to_def invalid_visibility_unit_def)
next
  assume "u \<notin> {''miles'', ''kms''}"
  then show "visibility_dict_to h d u = Inl invalid_visibility_unit"
    by (simp add: visibility_dict_to_def)
qed

theorem invalid_unit_raised_iff_witness:
  "kelvin_dict_to [[(''temp'', PInt 300)]] 0 ''bogus'' = Inl invalid_temperature_unit
   \<and> kelvin_dict_to [[(''temp'', PInt 300)]] 0 ''celsius'' \<noteq> Inl invalid_temperature_unit
   \<and> visibility_dict_to [[(''visibility'', PInt 10000)]] 0 ''bogus'' = Inl invalid_visibility_unit
   \<and> (\<nexists>m. visibility_dict_to [[(''visibility'', PInt 10000)]] 0 ''kms'' = Inl (ValueError m))"
  using invalid_unit_raised_iff [of "[[(''temp'', PInt 300)]]" 0 "''bogus''"]
    invalid_unit_raised_iff [of "[[(''temp'', PInt 300)]]" 0 "''celsius''"]
    invalid_unit_raised_iff [of "[[(''visibility'', PInt 10000)]]" 0 "''bogus''"]
    invalid_unit_raised_iff [of "[[(''visibility'', PInt 10000)]]" 0 "''kms''"]
  by simp

text \<open>
  C5 as stated fails for \<open>kelvin_dict_to\<close>: with the valid unit \<open>'fahrenheit'\<close> and a
  negative value it raises an invalid-argument error too (that of the temperature).
\<close>

theorem kelvin_dict_to_valid_unit_counterexample:
  "kelvin_dict_to [[(''temp'', PFloat (Finite (- 2)))]] 0 ''fahrenheit'' =
     Inl (ValueError ''pyowm.utils.measurables: negative temperature values not allowed'')"
  by (simp add: kelvin_dict_to_def comprehension_body_def kelvin_to_fahrenheit_cases
      negative_temperature_def name_of_module_def)

text \<open>
  C10 (as amended). \<open>kelvin_dict_to(d, 'kelvin')\<close> validates nothing and never raises:
  it returns \<open>d\<close> itself whatever the values. \<open>kelvin_dict_to(d, 'celsius')\<close> and
  \<open>kelvin_dict_to(d, 'fahrenheit')\<close> raise whenever some value of \<open>d\<close> is negative:
  the error is that of the first value, in the order of the mapping, on which the scalar
  conversion raises, so the invalid-argument error at the first negative value when
  every value before it converts, and otherwise the \<open>TypeError\<close> or
  \<open>OverflowError\<close> of an earlier value.
\<close>

theorem kelvin_dict_to_validation:
  "kelvin_dict_to h d ''kelvin'' = Inr (d, h)
   \<and> (\<forall>pre k v post x. h ! d = pre @ (k, v) # post \<and> cmp_operand v = Inr x \<and> flt x (Finite 0) \<and>
         (\<forall>(k', v') \<in> set pre. \<not> isl (kelvin_to_celsius v')) \<longrightarrow>
       kelvin_dict_to h d ''celsius'' = Inl negative_temperature)
   \<and> (\<forall>pre k v post x. h ! d = pre @ (k, v) # post \<and> cmp_operand v = Inr x \<and> flt x (Finite 0) \<and>
         (\<forall>(k', v') \<in> set pre. \<not> isl (kelvin_to_fahrenheit v')) \<longrightarrow>
       kelvin_dict_to h d ''fahrenheit'' = Inl negative_temperature)
   \<and> ((\<exists>(k, v) \<in> set (h ! d). \<exists>x. cmp_operand v = Inr x \<and> flt x (Finite 0)) \<longrightarrow>
       isl (kelvin_dict_to h d ''celsius'') \<and> isl (kelvin_dict_to h d ''fahrenheit''))
   \<and> (\<forall>pre k v post e. h ! d = pre @ (k, v) # post \<and>
         (\<forall>(k', v') \<in> set pre. \<not> isl (kelvin_to_celsius v')) \<and> kelvin_to_celsius v = Inl e \<longrightarrow>
       kelvin_dict_to h d ''celsius'' = Inl e)
   \<and> (\<forall>pre k v post e. h ! d = pre @ (k, v) # post \<and>
         (\<forall>(k', v') \<in> set pre. \<not> isl (kelvin_to_fahrenheit v')) \<and>
         kelvin_to_fahrenheit v = Inl e \<longrightarrow>
       kelvin_dict_to h d ''fahrenheit'' = Inl e)
   \<and> (\<forall>v e. kelvin_to_celsius v = Inl e \<or> kelvin_to_fahrenheit v = Inl e \<longrightarrow>
         e = TypeError \<or> e = OverflowError \<or>
         (e = negative_temperature \<and> (\<exists>x. cmp_operand v = Inr x \<and> flt x (Finite 0))))
   \<and> (\<forall>e. kelvin_dict_to h d ''celsius'' = Inl e \<or> kelvin_dict_to h d ''fahrenheit'' = Inl e \<longrightarrow>
         e = negative_temperature \<or> e = TypeError \<or> e = OverflowError)"
proof (intro conjI allI impI)
  show "kelvin_dict_to h d ''kelvin'' = Inr (d, h)" by (simp add: kelvin_dict_to_def)
next
  fix pre k v post x
  assume a: "h ! d = pre @ (k, v) # post \<and> cmp_operand v = Inr x \<and> flt x (Finite 0) \<and>
    (\<forall>(k', v') \<in> set pre. \<not> isl (kelvin_to_celsius v'))"
  then have "kelvin_to_celsius v = Inl negative_temperature"
    using kelvin_to_celsius_negative by blast
  then have "for_items (comprehension_body kelvin_to_celsius) (pre @ (k, v) # post) [] =
      Inl negative_temperature"
    using a by (intro comprehension_first_error) auto
  then show "kelvin_dict_to h d ''celsius'' = Inl negative_temperature"
    using a by (simp add: kelvin_dict_to_def)
next
  fix pre k v post x
  assume a: "h ! d = pre @ (k, v) # post \<and> cmp_operand v = Inr x \<and> flt x (Finite 0) \<and>
    (\<forall>(k', v') \<in> set pre. \<not> isl (kelvin_to_fahrenheit v'))"
  then have "kelvin_to_fahrenheit v = Inl negative_temperature"
    using kelvin_to_fahrenheit_negative by blast
  then have "for_items (comprehension_body kelvin_to_fahrenheit) (pre @ (k, v) # post) [] =
      Inl negative_temperature"
    using a by (intro comprehension_first_error) auto
  then show "kelvin_dict_to h d ''fahrenheit'' = Inl negative_temperature"
    using a by (simp add: kelvin_dict_to_def)
next
  assume "\<exists>(k, v) \<in> set (h ! d). \<exists>x. cmp_operand v = Inr x \<and> flt x (Finite 0)"
  then obtain k v x where kv: "(k, v) \<in> set (h ! d)" "cmp_operand v = Inr x" "flt x (Finite 0)"
    by auto
  then have "isl (kelvin_to_celsius v)" by (simp add: kelvin_to_celsius_negative)
  then have "isl (for_items (comprehension_body kelvin_to_celsius) (h ! d) [])"
    using kv(1) by (rule comprehension_raises [rotated])
  then show "isl (kelvin_dict_to h d ''celsius'')"
    by (cases "for_items (comprehension_body kelvin_to_celsius) (h ! d) []")
      (simp_all add: kelvin_dict_to_def)
next
  assume "\<exists>(k, v) \<in> set (h ! d). \<exists>x. cmp_operand v = Inr x \<and> flt x (Finite 0)"
  then obtain k v x where kv: "(k, v) \<in> set (h ! d)" "cmp_operand v = Inr x" "flt x (Finite 0)"
    by auto
  then have "isl (kelvin_to_fahrenheit v)" by (simp add: kelvin_to_fahrenheit_negative)
  then have "isl (for_items (comprehension_body kelvin_to_fahrenheit) (h ! d) [])"
    using kv(1) by (rule comprehension_raises [rotated])
  then show "isl (kelvin_dict_to h d ''fahrenheit'')"
    by (cases "for_items (comprehension_body kelvin_to_fahrenheit) (h ! d) []")
      (simp_all add: kelvin_dict_to_def)
next
  fix pre k v post e
  assume "h ! d = pre @ (k, v) # post \<and>
    (\<forall>(k', v') \<in> set pre. \<not> isl (kelvin_to_celsius v')) \<and> kelvin_to_celsius v = Inl e"
  then show "kelvin_dict_to h d ''celsius'' = Inl e"
    using kelvin_dict_to_first_error(1) by blast
next
  fix pre k v post e
  assume "h ! d = pre @ (k, v) # post \<and>
    (\<forall>(k', v') \<in> set pre. \<not> isl (kelvin_to_fahrenheit v')) \<and> kelvin_to_fahrenheit v = Inl e"
  then show "kelvin_dict_to h d ''fahrenheit'' = Inl e"
    using kelvin_dict_to_first_error(2) by blast
next
  fix v e
  assume "kelvin_to_celsius v = Inl e \<or> kelvin_to_fahrenheit v = Inl e"
  then show "e = TypeError \<or> e = OverflowError \<or>
      (e = negative_temperature \<and> (\<exists>x. cmp_operand v = Inr x \<and> flt x (Finite 0)))"
    using kelvin_to_celsius_errors kelvin_to_fahrenheit_errors by blast
next
  fix e
  assume "kelvin_dict_to h d ''celsius'' = Inl e \<or> kelvin_dict_to h d ''fahrenheit'' = Inl e"
  then show "e = negative_temperature \<or> e = TypeError \<or> e = OverflowError"
    using kelvin_dict_to_errors by blast
qed

theorem kelvin_dict_to_validation_witness:
  "kelvin_dict_to [[(''temp'', PInt 300), (''temp_min'', PInt (- 1)), (''temp_kf'', PNone)]] 0
     ''kelvin'' =
     Inr (0, [[(''temp'', PInt 300), (''temp_min'', PInt (- 1)), (''temp_kf'', PNone)]])
   \<and> kelvin_dict_to [[(''temp'', PInt 300), (''temp_min'', PInt (- 1)), (''temp_kf'', PNone)]] 0
     ''celsius'' = Inl negative_temperature
   \<and> kelvin_dict_to [[(''temp'', PInt 300), (''temp_min'', PInt (- 1)), (''temp_kf'', PNone)]] 0
     ''fahrenheit'' = Inl negative_temperature
   \<and> kelvin_dict_to [[(''temp'', PInt 300), (''temp_kf'', PNone), (''temp_min'', PInt (- 1))]] 0
     ''celsius'' = Inl TypeError"
proof -
  let ?h = "[[(''temp'', PInt 300), (''temp_min'', PInt (- 1)), (''temp_kf'', PNone)]]"
  let ?g = "[[(''temp'', PInt 300), (''temp_kf'', PNone), (''temp_min'', PInt (- 1))]]"
  note kelvin = kelvin_dict_to_validation [of ?h 0, THEN conjunct1]
  note celsius = kelvin_dict_to_validation [of ?h 0, THEN conjunct2, THEN conjunct1, rule_format]
  note fahrenheit = kelvin_dict_to_validation
    [of ?h 0, THEN conjunct2, THEN conjunct2, THEN conjunct1, rule_format]
  note first = kelvin_dict_to_validation
    [of ?g 0, THEN conjunct2, THEN conjunct2, THEN conjunct2, THEN conjunct2, THEN conjunct1,
     rule_format]
  have "kelvin_dict_to ?h 0 ''kelvin'' = Inr (0, ?h)" by (rule kelvin)
  moreover have "kelvin_dict_to ?h 0 ''celsius'' = Inl negative_temperature"
    by (rule celsius [of "[(''temp'', PInt 300)]" "''temp_min''" "PInt (- 1)"
          "[(''temp_kf'', PNone)]" "Finite (- 1)"])
      (simp add: kelvin_to_celsius_300)
  moreover have "kelvin_dict_to ?h 0 ''fahrenheit'' = Inl negative_temperature"
    by (rule fahrenheit [of "[(''temp'', PInt 300)]" "''temp_min''" "PInt (- 1)"
          "[(''temp_kf'', PNone)]" "Finite (- 1)"])
      (simp add: kelvin_to_fahrenheit_300)
  moreover have "kelvin_dict_to ?g 0 ''celsius'' = Inl TypeError"
    by (rule first [of "[(''temp'', PInt 300)]" "''temp_kf''" PNone
          "[(''temp_min'', PInt (- 1))]"])
      (simp add: kelvin_to_celsius_300 kelvin_scalar_none)
  ultimately show ?thesis by blast
qed

text \<open>
  C10 as stated fails when a null value, or an int too large for a float, comes before
  the negative value: the error raised is \<open>TypeError\<close>, or \<open>OverflowError\<close>, not the
  invalid-argument error.
\<close>

theorem kelvin_dict_to_earlier_error_counterexample:
  "kelvin_dict_to [[(''temp_kf'', PNone), (''temp_min'', PInt (- 1))]] 0 ''celsius'' =
     Inl TypeError
   \<and> kelvin_dict_to [[(''temp'', PInt (2 ^ 1024)), (''temp_min'', PInt (- 1))]] 0
     ''fahrenheit'' = Inl OverflowError"
  by (simp add: kelvin_dict_to_def comprehension_body_def kelvin_to_celsius_cases
      kelvin_to_fahrenheit_cases)

text \<open>
  C6 (as amended). For every mapping \<open>d\<close> whose values under keys other than \<open>'deg'\<close>
  are floats, or ints that convert to a float, each of \<open>metric_wind_dict_to_imperial\<close>,
  \<open>metric_wind_dict_to_km_h\<close> and \<open>metric_wind_dict_to_knots\<close> returns a new mapping
  with exactly the keys of \<open>d\<close>, in which every value under a key other than \<open>'deg'\<close>
  is the float product with 2.23694, 3.6 and 1.94384 respectively, not rounded to
  decimals, and the value under \<open>'deg'\<close> is copied whatever it is. For every mapping
  with a null value, or an int from \<open>2^1024 - 2^970\<close> on in absolute value, under a key
  other than \<open>'deg'\<close>, each of the three raises: \<open>TypeError\<close> when the first such
  value in the order of the mapping is null, \<open>OverflowError\<close> when it is such an int.
\<close>

theorem metric_wind_dict_scaled:
  assumes "distinct (map fst (h ! d))"
  shows "((\<forall>(k, v) \<in> set (h ! d). k \<noteq> ''deg'' \<longrightarrow> \<not> isl (to_float v)) \<longrightarrow>
      metric_wind_dict_to_imperial h d =
        Inr (length h, h @ [map (\<lambda>(k, v). (k, if k = ''deg'' then v
          else PFloat (fmul (projr (to_float v)) (rnd (223694 / 100000)))))  (h ! d)])
      \<and> metric_wind_dict_to_km_h h d =
        Inr (length h, h @ [map (\<lambda>(k, v). (k, if k = ''deg'' then v
          else PFloat (fmul (projr (to_float v)) (rnd (36 / 10))))) (h ! d)])
      \<and> metric_wind_dict_to_knots h d =
        Inr (length h, h @ [map (\<lambda>(k, v). (k, if k = ''deg'' then v
          else PFloat (fmul (projr (to_float v)) (rnd (194384 / 100000))))) (h ! d)]))
    \<and> (\<forall>pre k v post. h ! d = pre @ (k, v) # post \<and> k \<noteq> ''deg'' \<and>
          (\<forall>(k', v') \<in> set pre. k' \<noteq> ''deg'' \<longrightarrow> \<not> isl (to_float v')) \<longrightarrow>
        (v = PNone \<longrightarrow>
           metric_wind_dict_to_imperial h d = Inl TypeError
           \<and> metric_wind_dict_to_km_h h d = Inl TypeError
           \<and> metric_wind_dict_to_knots h d = Inl TypeError)
        \<and> (\<forall>i. v = PInt i \<and> 2 ^ 1024 - 2 ^ 970 \<le> \<bar>i\<bar> \<longrightarrow>
           metric_wind_dict_to_imperial h d = Inl OverflowError
           \<and> metric_wind_dict_to_km_h h d = Inl OverflowError
           \<and> metric_wind_dict_to_knots h d = Inl OverflowError))
    \<and> ((\<exists>(k, v) \<in> set (h ! d). k \<noteq> ''deg'' \<and>
          (v = PNone \<or> (\<exists>i. v = PInt i \<and> 2 ^ 1024 - 2 ^ 970 \<le> \<bar>i\<bar>))) \<longrightarrow>
        isl (metric_wind_dict_to_imperial h d) \<and> isl (metric_wind_dict_to_km_h h d)
        \<and> isl (metric_wind_dict_to_knots h d))"
proof (intro conjI allI impI)
  assume conv: "\<forall>(k, v) \<in> set (h ! d). k \<noteq> ''deg'' \<longrightarrow> \<not> isl (to_float v)"
  note ret = wind_dicts_return [OF assms conv]
  show "metric_wind_dict_to_imperial h d =
      Inr (length h, h @ [map (\<lambda>(k, v). (k, if k = ''deg'' then v
        else PFloat (fmul (projr (to_float v)) (rnd (223694 / 100000)))))  (h ! d)])"
    by (rule ret [THEN conjunct1])
  show "metric_wind_dict_to_km_h h d =
      Inr (length h, h @ [map (\<lambda>(k, v). (k, if k = ''deg'' then v
        else PFloat (fmul (projr (to_float v)) (rnd (36 / 10))))) (h ! d)])"
    by (rule ret [THEN conjunct2, THEN conjunct1])
  show "metric_wind_dict_to_knots h d =
      Inr (length h, h @ [map (\<lambda>(k, v). (k, if k = ''deg'' then v
        else PFloat (fmul (projr (to_float v)) (rnd (194384 / 100000))))) (h ! d)])"
    by (rule ret [THEN conjunct2, THEN conjunct2])
next
  fix pre k v post
  assume a: "h ! d = pre @ (k, v) # post \<and> k \<noteq> ''deg'' \<and>
    (\<forall>(k', v') \<in> set pre. k' \<noteq> ''deg'' \<longrightarrow> \<not> isl (to_float v'))"
  assume "v = PNone"
  then have "to_float v = Inl TypeError" by simp
  note all = wind_dicts_first_error [OF a [THEN conjunct1] a [THEN conjunct2, THEN conjunct1]
      a [THEN conjunct2, THEN conjunct2] this]
  show "metric_wind_dict_to_imperial h d = Inl TypeError" by (rule all [THEN conjunct1])
  show "metric_wind_dict_to_km_h h d = Inl TypeError"
    by (rule all [THEN conjunct2, THEN conjunct1])
  show "metric_wind_dict_to_knots h d = Inl TypeError"
    by (rule all [THEN conjunct2, THEN conjunct2])
next
  fix pre k v post i
  assume a: "h ! d = pre @ (k, v) # post \<and> k \<noteq> ''deg'' \<and>
    (\<forall>(k', v') \<in> set pre. k' \<noteq> ''deg'' \<longrightarrow> \<not> isl (to_float v'))"
  assume "v = PInt i \<and> 2 ^ 1024 - 2 ^ 970 \<le> \<bar>i\<bar>"
  then have "to_float v = Inl OverflowError" by (simp add: to_float_big)
  note all = wind_dicts_first_error [OF a [THEN conjunct1] a [THEN conjunct2, THEN conjunct1]
      a [THEN conjunct2, THEN conjunct2] this]
  show "metric_wind_dict_to_imperial h d = Inl OverflowError" by (rule all [THEN conjunct1])
  show "metric_wind_dict_to_km_h h d = Inl OverflowError"
    by (rule all [THEN conjunct2, THEN conjunct1])
  show "metric_wind_dict_to_knots h d = Inl OverflowError"
    by (rule all [THEN conjunct2, THEN conjunct2])
next
  assume "\<exists>(k, v) \<in> set (h ! d). k \<noteq> ''deg'' \<and>
    (v = PNone \<or> (\<exists>i. v = PInt i \<and> 2 ^ 1024 - 2 ^ 970 \<le> \<bar>i\<bar>))"
  then obtain k v where kv: "(k, v) \<in> set (h ! d)" "k \<noteq> ''deg''"
    and bad: "v = PNone \<or> (\<exists>i. v = PInt i \<and> 2 ^ 1024 - 2 ^ 970 \<le> \<bar>i\<bar>)"
    by blast
  from bad have "isl (to_float v)" by (simp only: to_float_isl_iff)
  note all = wind_dicts_raise [OF kv this]
  show "isl (metric_wind_dict_to_imperial h d)" by (rule all [THEN conjunct1])
  show "isl (metric_wind_dict_to_km_h h d)" by (rule all [THEN conjunct2, THEN conjunct1])
  show "isl (metric_wind_dict_to_knots h d)" by (rule all [THEN conjunct2, THEN conjunct2])
qed

theorem metric_wind_dict_scaled_witness:
  "metric_wind_dict_to_imperial [[(''speed'', PInt 1), (''deg'', PNone)]] 0 =
     Inr (1, [[(''speed'', PInt 1), (''deg'', PNone)],
              [(''speed'', PFloat (Finite (5037141075225079 / 2251799813685248))),
               (''deg'', PNone)]])
   \<and> metric_wind_dict_to_km_h [[(''speed'', PInt 1), (''deg'', PNone)]] 0 =
     Inr (1, [[(''speed'', PInt 1), (''deg'', PNone)],
              [(''speed'', PFloat (Finite (8106479329266893 / 2251799813685248))),
               (''deg'', PNone)]])
   \<and> metric_wind_dict_to_knots [[(''speed'', PInt 1), (''deg'', PNone)]] 0 =
     Inr (1, [[(''speed'', PInt 1), (''deg'', PNone)],
              [(''speed'', PFloat (Finite (8754277099667865 / 4503599627370496))),
               (''deg'', PNone)]])
   \<and> metric_wind_dict_to_km_h [[(''speed'', PInt 1), (''gust'', PNone)]] 0 = Inl TypeError
   \<and> metric_wind_dict_to_km_h [[(''speed'', PInt 1), (''gust'', PInt (- (2 ^ 1024)))]] 0 =
     Inl OverflowError
   \<and> isl (metric_wind_dict_to_knots [[(''speed'', PNone), (''gust'', PInt 1)]] 0)"
proof -
  let ?w = "[[(''speed'', PInt 1), (''deg'', PNone)]]"
  let ?a = "[[(''speed'', PInt 1), (''gust'', PNone)]]"
  let ?b = "[[(''speed'', PInt 1), (''gust'', PInt (- (2 ^ 1024)))]]"
  let ?c = "[[(''speed'', PNone), (''gust'', PInt 1)]]"
  have ret: "metric_wind_dict_to_imperial ?w 0 =
      Inr (1, [[(''speed'', PInt 1), (''deg'', PNone)],
              [(''speed'', PFloat (Finite (5037141075225079 / 2251799813685248))),
               (''deg'', PNone)]])
    \<and> metric_wind_dict_to_km_h ?w 0 =
      Inr (1, [[(''speed'', PInt 1), (''deg'', PNone)],
              [(''speed'', PFloat (Finite (8106479329266893 / 2251799813685248))),
               (''deg'', PNone)]])
    \<and> metric_wind_dict_to_knots ?w 0 =
      Inr (1, [[(''speed'', PInt 1), (''deg'', PNone)],
              [(''speed'', PFloat (Finite (8754277099667865 / 4503599627370496))),
               (''deg'', PNone)]])"
    using metric_wind_dict_scaled [of ?w 0, THEN conjunct1]
    by (simp add: rnd_eval)
  have da: "distinct (map fst (?a ! 0))" and db: "distinct (map fst (?b ! 0))"
    and dc: "distinct (map fst (?c ! 0))"
    by simp_all
  note first_a = metric_wind_dict_scaled [OF da, THEN conjunct2, THEN conjunct1, rule_format]
  note first_b = metric_wind_dict_scaled [OF db, THEN conjunct2, THEN conjunct1, rule_format]
  note any_c = metric_wind_dict_scaled [OF dc, THEN conjunct2, THEN conjunct2, rule_format]
  have a: "metric_wind_dict_to_km_h ?a 0 = Inl TypeError"
    using first_a [of "[(''speed'', PInt 1)]" "''gust''" PNone "[]", THEN conjunct1] by simp
  have b: "metric_wind_dict_to_km_h ?b 0 = Inl OverflowError"
    using first_b [of "[(''speed'', PInt 1)]" "''gust''" "PInt (- (2 ^ 1024))" "[]",
        THEN conjunct2, rule_format, of "- (2 ^ 1024)"]
    by simp
  have c: "isl (metric_wind_dict_to_knots ?c 0)"
    using any_c by simp
  from ret a b c show ?thesis by (simp only: simp_thms)
qed

text \<open>
  C6 as stated fails on a mapping with a null value, or an int too large for a float,
  under a key other than \<open>'deg'\<close>: the multiplication raises in each of the three.
\<close>

theorem metric_wind_dict_raises_counterexample:
  "metric_wind_dict_to_imperial [[(''speed'', PNone)]] 0 = Inl TypeError
   \<and> metric_wind_dict_to_km_h [[(''speed'', PNone)]] 0 = Inl TypeError
   \<and> metric_wind_dict_to_knots [[(''gust'', PInt (2 ^ 1024))]] 0 = Inl OverflowError"
  by (simp add: metric_wind_dict_to_imperial_def metric_wind_dict_to_km_h_def
      metric_wind_dict_to_knots_def wind_body_def py_mul_def)

text \<open>
  C7 (as amended). For every mapping \<open>d\<close> whose values are null, floats, or ints that
  convert to a float: \<open>metric_pressure_dict_to_inhg(d)\<close> returns a mapping with
  exactly the keys of \<open>d\<close> whose values are not null, each mapped to
  \<open>round(value / 33.8639, 2)\<close>; \<open>visibility_dict_to(d, u)\<close> with \<open>u = 'miles'\<close> (the
  default) or \<open>u = 'kms'\<close> likewise omits the keys of null values and maps each other
  value to \<open>round(value * 0.000621371, 2)\<close> or \<open>round(value * 0.001, 2)\<close>. For every
  mapping with an int from \<open>2^1024 - 2^970\<close> on in absolute value, each of these calls
  raises \<open>OverflowError\<close>.
\<close>

theorem pressure_visibility_dict_rounded:
  assumes "distinct (map fst (h ! d))"
  shows "((\<forall>(k, v) \<in> set (h ! d). v \<noteq> PNone \<longrightarrow> \<not> isl (to_float v)) \<longrightarrow>
      metric_pressure_dict_to_inhg h d =
        Inr (length h, h @ [map (\<lambda>(k, v).
            (k, PFloat (py_round (projr (py_div v (rnd (338639 / 10000)))) 2)))
          (filter (\<lambda>(k, v). v \<noteq> PNone) (h ! d))])
      \<and> visibility_dict_to h d ''miles'' =
        Inr (length h, h @ [map (\<lambda>(k, v).
            (k, PFloat (py_round (projr (py_mul v (rnd (621371 / 1000000000)))) 2)))
          (filter (\<lambda>(k, v). v \<noteq> PNone) (h ! d))])
      \<and> visibility_dict_to h d ''kms'' =
        Inr (length h, h @ [map (\<lambda>(k, v).
            (k, PFloat (py_round (projr (py_mul v (rnd (1 / 1000)))) 2)))
          (filter (\<lambda>(k, v). v \<noteq> PNone) (h ! d))]))
    \<and> visibility_dict_to_default h d = visibility_dict_to h d ''miles''
    \<and> ((\<exists>(k, v) \<in> set (h ! d). \<exists>i. v = PInt i \<and> 2 ^ 1024 - 2 ^ 970 \<le> \<bar>i\<bar>) \<longrightarrow>
      metric_pressure_dict_to_inhg h d = Inl OverflowError
      \<and> visibility_dict_to h d ''miles'' = Inl OverflowError
      \<and> visibility_dict_to h d ''kms'' = Inl OverflowError
      \<and> visibility_dict_to_default h d = Inl OverflowError)"
proof (intro conjI impI)
  assume conv: "\<forall>(k, v) \<in> set (h ! d). v \<noteq> PNone \<longrightarrow> \<not> isl (to_float v)"
  note ret = pressure_visibility_dicts_return [OF assms conv]
  show "metric_pressure_dict_to_inhg h d =
      Inr (length h, h @ [map (\<lambda>(k, v).
          (k, PFloat (py_round (projr (py_div v (rnd (338639 / 10000)))) 2)))
        (filter (\<lambda>(k, v). v \<noteq> PNone) (h ! d))])"
    by (rule ret [THEN conjunct1])
  show "visibility_dict_to h d ''miles'' =
      Inr (length h, h @ [map (\<lambda>(k, v).
          (k, PFloat (py_round (projr (py_mul v (rnd (621371 / 1000000000)))) 2)))
        (filter (\<lambda>(k, v). v \<noteq> PNone) (h ! d))])"
    by (rule ret [THEN conjunct2, THEN conjunct1])
  show "visibility_dict_to h d ''kms'' =
      Inr (length h, h @ [map (\<lambda>(k, v).
          (k, PFloat (py_round (projr (py_mul v (rnd (1 / 1000)))) 2)))
        (filter (\<lambda>(k, v). v \<noteq> PNone) (h ! d))])"
    by (rule ret [THEN conjunct2, THEN conjunct2, THEN conjunct1])
next
  show "visibility_dict_to_default h d = visibility_dict_to h d ''miles''"
    by (rule visibility_dict_to_default_def)
next
  assume "\<exists>(k, v) \<in> set (h ! d). \<exists>i. v = PInt i \<and> 2 ^ 1024 - 2 ^ 970 \<le> \<bar>i\<bar>"
  then obtain k i where big: "(k, PInt i) \<in> set (h ! d)" "2 ^ 1024 - 2 ^ 970 \<le> \<bar>i\<bar>"
    by blast
  note all = pressure_visibility_dicts_overflow [OF big]
  show "metric_pressure_dict_to_inhg h d = Inl OverflowError" by (rule all [THEN conjunct1])
  show "visibility_dict_to h d ''miles'' = Inl OverflowError"
    by (rule all [THEN conjunct2, THEN conjunct1])
  show "visibility_dict_to h d ''kms'' = Inl OverflowError"
    by (rule all [THEN conjunct2, THEN conjunct2, THEN conjunct1])
  show "visibility_dict_to_default h d = Inl OverflowError"
    by (rule all [THEN conjunct2, THEN conjunct2, THEN conjunct2])
qed

theorem pressure_visibility_dict_rounded_witness:
  "metric_pressure_dict_to_inhg
     [[(''press'', PFloat (Finite (4053 / 4))), (''sea_level'', PNone)]] 0 =
     Inr (1, [[(''press'', PFloat (Finite (4053 / 4))), (''sea_level'', PNone)],
              [(''press'', PFloat (Finite (2105432825795707 / 70368744177664)))]])
   \<and> visibility_dict_to_default [[(''visibility'', PInt 10000), (''other'', PNone)]] 0 =
     Inr (1, [[(''visibility'', PInt 10000), (''other'', PNone)],
              [(''visibility'', PFloat (Finite (6991838421492695 / 1125899906842624)))]])
   \<and> visibility_dict_to [[(''visibility'', PInt 10000), (''other'', PNone)]] 0 ''kms'' =
     Inr (1, [[(''visibility'', PInt 10000), (''other'', PNone)],
              [(''visibility'', PFloat (Finite 10))]])
   \<and> visibility_dict_to [[(''visibility'', PInt (2 ^ 1024)), (''other'', PNone)]] 0 ''kms'' =
     Inl OverflowError
   \<and> visibility_dict_to_default [[(''other'', PNone), (''visibility'', PInt (2 ^ 1024))]] 0 =
     Inl OverflowError
   \<and> metric_pressure_dict_to_inhg [[(''sea_level'', PNone), (''press'', PInt (- (2 ^ 1024)))]] 0 =
     Inl OverflowError"
proof -
  let ?p = "[[(''press'', PFloat (Finite (4053 / 4))), (''sea_level'', PNone)]]"
  let ?v = "[[(''visibility'', PInt 10000), (''other'', PNone)]]"
  let ?a = "[[(''visibility'', PInt (2 ^ 1024)), (''other'', PNone)]]"
  let ?b = "[[(''other'', PNone), (''visibility'', PInt (2 ^ 1024))]]"
  let ?c = "[[(''sea_level'', PNone), (''press'', PInt (- (2 ^ 1024)))]]"
  have p: "metric_pressure_dict_to_inhg ?p 0 =
      Inr (1, [[(''press'', PFloat (Finite (4053 / 4))), (''sea_level'', PNone)],
              [(''press'', PFloat (Finite (2105432825795707 / 70368744177664)))]])"
    using pressure_visibility_dict_rounded [of ?p 0, THEN conjunct1]
    by (simp add: rnd_eval py_div_def py_mul_def)
  have v: "visibility_dict_to ?v 0 ''miles'' =
      Inr (1, [[(''visibility'', PInt 10000), (''other'', PNone)],
              [(''visibility'', PFloat (Finite (6991838421492695 / 1125899906842624)))]])
    \<and> visibility_dict_to ?v 0 ''kms'' =
      Inr (1, [[(''visibility'', PInt 10000), (''other'', PNone)],
              [(''visibility'', PFloat (Finite 10))]])"
    using pressure_visibility_dict_rounded [of ?v 0, THEN conjunct1]
    by (simp add: rnd_eval py_div_def py_mul_def)
  have dv: "visibility_dict_to_default ?v 0 = visibility_dict_to ?v 0 ''miles''"
    using pressure_visibility_dict_rounded [of ?v 0, THEN conjunct2, THEN conjunct1]
    by simp
  have a: "visibility_dict_to ?a 0 ''kms'' = Inl OverflowError"
    using pressure_visibility_dict_rounded [of ?a 0, THEN conjunct2, THEN conjunct2]
    by simp
  have b: "visibility_dict_to_default ?b 0 = Inl OverflowError"
    using pressure_visibility_dict_rounded [of ?b 0, THEN conjunct2, THEN conjunct2]
    by simp
  have c: "metric_pressure_dict_to_inhg ?c 0 = Inl OverflowError"
    using pressure_visibility_dict_rounded [of ?c 0, THEN conjunct2, THEN conjunct2]
    by simp
  from p v dv a b c show ?thesis by (simp only: simp_thms)
qed

text \<open>
  C7 as stated fails on a mapping with an int too large for a float: the division, and
  the multiplication, raise \<open>OverflowError\<close> and no mapping is returned.
\<close>

theorem metric_pressure_dict_overflow_counterexample:
  "metric_pressure_dict_to_inhg [[(''press'', PInt (2 ^ 1024))]] 0 = Inl OverflowError
   \<and> visibility_dict_to [[(''visibility'', PInt (2 ^ 1024))]] 0 ''kms'' = Inl OverflowError"
  by (simp add: metric_pressure_dict_to_inhg_def pressure_body_def py_div_def
      visibility_dict_to_def visibility_body_def py_mul_def)

text \<open>
  C8 (as amended). Every dictionary conversion of the module is pure on the store:
  for every input mapping, whether the call returns or raises, it leaves every
  dictionary of the store, the input mapping among them, as it was (no key added or
  removed, no value modified); a call on an input with the same items in the same
  order, be it the same object or another, in the same store or another, has the same
  outcome (the same error, or a mapping with the same items in the same order); and
  for two inputs with the same items in any order, either both calls raise, or both
  return mappings with the same items, which \<open>==\<close> reports equal when no value of
  the first result is a NaN.
\<close>

theorem conversions_pure:
  assumes "d < length h" and "d' < length h'"
    and "distinct (map fst (h ! d))" and "distinct (map fst (h' ! d'))"
  shows "pure_call (\<lambda>h d. kelvin_dict_to_store h d u) h d h' d'
    \<and> pure_call metric_wind_dict_to_imperial_store h d h' d'
    \<and> pure_call metric_wind_dict_to_km_h_store h d h' d'
    \<and> pure_call metric_wind_dict_to_knots_store h d h' d'
    \<and> pure_call metric_wind_dict_to_beaufort_store h d h' d'
    \<and> pure_call metric_pressure_dict_to_inhg_store h d h' d'
    \<and> pure_call (\<lambda>h d. visibility_dict_to_store h d u) h d h' d'
    \<and> pure_call visibility_dict_to_default_store h d h' d'"
proof (intro conjI)
  show "pure_call (\<lambda>h d. kelvin_dict_to_store h d u) h d h' d'"
    using assms by (rule kelvin_dict_to_store_pure)
next
  show "pure_call metric_wind_dict_to_imperial_store h d h' d'"
    by (rule wind_store_pure [OF _ assms]) (rule metric_wind_dict_to_imperial_store_def)
next
  show "pure_call metric_wind_dict_to_km_h_store h d h' d'"
    by (rule wind_store_pure [OF _ assms]) (rule metric_wind_dict_to_km_h_store_def)
next
  show "pure_call metric_wind_dict_to_knots_store h d h' d'"
    by (rule wind_store_pure [OF _ assms]) (rule metric_wind_dict_to_knots_store_def)
next
  show "pure_call metric_wind_dict_to_beaufort_store h d h' d'"
    using assms by (rule beaufort_store_pure)
next
  show "pure_call metric_pressure_dict_to_inhg_store h d h' d'"
    using assms by (rule pressure_store_pure)
next
  show "pure_call (\<lambda>h d. visibility_dict_to_store h d u) h d h' d'"
    using assms by (rule visibility_dict_to_store_pure)
next
  show "pure_call visibility_dict_to_default_store h d h' d'"
    by (rule visibility_store_pure [where c = MILE_FOR_ONE_METER, OF _ assms])
      (simp add: visibility_dict_to_default_store_def visibility_dict_to_store_def)
qed

theorem conversions_pure_witness:
  "take 1 (snd (metric_pressure_dict_to_inhg_store
        [[(''press'', PFloat (Finite (4053 / 4))), (''sea_level'', PNone)]] 0)) =
     [[(''press'', PFloat (Finite (4053 / 4))), (''sea_level'', PNone)]]
   \<and> outcome (metric_pressure_dict_to_inhg_store
        [[], [(''press'', PFloat (Finite (4053 / 4))), (''sea_level'', PNone)]] 1) =
     outcome (metric_pressure_dict_to_inhg_store
        [[(''press'', PFloat (Finite (4053 / 4))), (''sea_level'', PNone)]] 0)
   \<and> outcome (metric_pressure_dict_to_inhg_store
        [[(''press'', PFloat (Finite (4053 / 4))), (''sea_level'', PNone)]] 0) =
     Inr [(''press'', PFloat (Finite (2105432825795707 / 70368744177664)))]
   \<and> (\<exists>r. outcome (metric_pressure_dict_to_inhg_store
          [[(''sea_level'', PNone), (''press'', PFloat (Finite (4053 / 4)))]] 0) = Inr r
        \<and> dict_eq [(''press'', PFloat (Finite (2105432825795707 / 70368744177664)))] r)
   \<and> fst (metric_wind_dict_to_beaufort_store [[(''speed'', PInt 1), (''gust'', PNone)]] 0) =
       Inl TypeError
   \<and> take 1 (snd (metric_wind_dict_to_beaufort_store
        [[(''speed'', PInt 1), (''gust'', PNone)]] 0)) =
     [[(''speed'', PInt 1), (''gust'', PNone)]]
   \<and> isl (outcome (metric_wind_dict_to_beaufort_store
        [[(''gust'', PNone), (''speed'', PInt 1)]] 0))
   \<and> fst (visibility_dict_to_store [[(''visibility'', PInt 10000)]] 0 ''bogus'') =
       Inl invalid_visibility_unit
   \<and> take 1 (snd (visibility_dict_to_store [[(''visibility'', PInt 10000)]] 0 ''bogus'')) =
     [[(''visibility'', PInt 10000)]]
   \<and> fst (kelvin_dict_to_store [[(''temp'', PInt (- 1))]] 0 ''celsius'') =
       Inl negative_temperature
   \<and> take 1 (snd (kelvin_dict_to_store [[(''temp'', PInt (- 1))]] 0 ''celsius'')) =
     [[(''temp'', PInt (- 1))]]"
proof -
  let ?p = "[(''press'', PFloat (Finite (4053 / 4))), (''sea_level'', PNone)]"
  let ?q = "[(''sea_level'', PNone), (''press'', PFloat (Finite (4053 / 4)))]"
  let ?r = "[(''press'', PFloat (Finite (2105432825795707 / 70368744177664)))]"
  let ?w = "[(''speed'', PInt 1), (''gust'', PNone)]"
  let ?x = "[(''gust'', PNone), (''speed'', PInt 1)]"
  let ?v = "[(''visibility'', PInt 10000)]"
  let ?t = "[(''temp'', PInt (- 1))]"
  have same: "pure_call metric_pressure_dict_to_inhg_store [?p] 0 [[], ?p] 1"
    using conversions_pure [of 0 "[?p]" 1 "[[], ?p]"] by simp
  have perm: "pure_call metric_pressure_dict_to_inhg_store [?p] 0 [?q] 0"
    using conversions_pure [of 0 "[?p]" 0 "[?q]"] by simp
  have raising: "pure_call metric_wind_dict_to_beaufort_store [?w] 0 [?x] 0"
    using conversions_pure [of 0 "[?w]" 0 "[?x]"] by simp
  have bogus: "pure_call (\<lambda>h d. visibility_dict_to_store h d ''bogus'') [?v] 0 [?v] 0"
    using conversions_pure [of 0 "[?v]" 0 "[?v]" "''bogus''"] by simp
  have negative: "pure_call (\<lambda>h d. kelvin_dict_to_store h d ''celsius'') [?t] 0 [?t] 0"
    using conversions_pure [of 0 "[?t]" 0 "[?t]" "''celsius''"] by simp
  have pq: "set ([?q] ! 0) = set ([?p] ! 0)" and wx: "set ([?x] ! 0) = set ([?w] ! 0)"
    by auto
  have c1: "take 1 (snd (metric_pressure_dict_to_inhg_store [?p] 0)) = [?p]"
    using same by (simp add: pure_call_def)
  have c2: "outcome (metric_pressure_dict_to_inhg_store [[], ?p] 1) =
      outcome (metric_pressure_dict_to_inhg_store [?p] 0)"
    using same by (simp add: pure_call_def)
  have "metric_pressure_dict_to_inhg [?p] 0 = Inr (1, [?p, ?r])"
    using pressure_visibility_dicts_return [of "[?p]" 0, THEN conjunct1]
    by (simp add: rnd_eval py_div_def py_mul_def)
  then have c3: "outcome (metric_pressure_dict_to_inhg_store [?p] 0) = Inr ?r"
    using store_outcomes(5) [of 0 "[?p]"] by simp
  have "same_result (outcome (metric_pressure_dict_to_inhg_store [?p] 0))
      (outcome (metric_pressure_dict_to_inhg_store [?q] 0))"
    using perm pq unfolding pure_call_def by blast
  then have c4: "\<exists>r. outcome (metric_pressure_dict_to_inhg_store [?q] 0) = Inr r \<and> dict_eq ?r r"
    unfolding c3 by (cases "outcome (metric_pressure_dict_to_inhg_store [?q] 0)") simp_all
  have c5: "fst (metric_wind_dict_to_beaufort_store [?w] 0) = Inl TypeError"
    by (simp add: metric_wind_dict_to_beaufort_store_def run_loop_def alloc_def
        beaufort_body_def)
  have c6: "take 1 (snd (metric_wind_dict_to_beaufort_store [?w] 0)) = [?w]"
    using raising by (simp add: pure_call_def)
  have w: "outcome (metric_wind_dict_to_beaufort_store [?w] 0) = Inl TypeError"
    by (simp add: metric_wind_dict_to_beaufort_store_def run_loop_def alloc_def outcome_def
        beaufort_body_def)
  have "same_result (outcome (metric_wind_dict_to_beaufort_store [?w] 0))
      (outcome (metric_wind_dict_to_beaufort_store [?x] 0))"
    using raising wx unfolding pure_call_def by blast
  then have c7: "isl (outcome (metric_wind_dict_to_beaufort_store [?x] 0))"
    unfolding w by (cases "outcome (metric_wind_dict_to_beaufort_store [?x] 0)") simp_all
  have c8: "fst (visibility_dict_to_store [?v] 0 ''bogus'') = Inl invalid_visibility_unit"
    by (simp add: visibility_dict_to_store_def alloc_def)
  have c9: "take 1 (snd (visibility_dict_to_store [?v] 0 ''bogus'')) = [?v]"
    using bogus by (simp add: pure_call_def)
  have c10: "fst (kelvin_dict_to_store [?t] 0 ''celsius'') = Inl negative_temperature"
    by (simp add: kelvin_dict_to_store_def run_loop_def alloc_def comprehension_body_def
        kelvin_to_celsius_cases)
  have c11: "take 1 (snd (kelvin_dict_to_store [?t] 0 ''celsius'')) = [?t]"
    using negative by (simp add: pure_call_def)
  from c1 c2 c3 c4 c5 c6 c7 c8 c9 c10 c11 show ?thesis by (simp only: simp_thms)
qed

text \<open>
  C8 as stated fails on a mapping with a NaN: two calls of
  \<open>metric_wind_dict_to_imperial\<close> on \<open>{'speed': nan}\<close>, the same object both times,
  leave it unchanged and return two mappings \<open>{'speed': nan}\<close> whose values are two
  NaN objects, and \<open>==\<close> on these two results is false.
\<close>

theorem conversions_nan_counterexample:
  "metric_wind_dict_to_imperial_store [[(''speed'', PFloat NaN)]] 0 =
     (Inr 1, [[(''speed'', PFloat NaN)], [(''speed'', PFloat NaN)]])
   \<and> metric_wind_dict_to_imperial_store
       [[(''speed'', PFloat NaN)], [(''speed'', PFloat NaN)]] 0 =
     (Inr 2, [[(''speed'', PFloat NaN)], [(''speed'', PFloat NaN)],
              [(''speed'', PFloat NaN)]])
   \<and> \<not> dict_eq [(''speed'', PFloat NaN)] [(''speed'', PFloat NaN)]"
  by (simp add: metric_wind_dict_to_imperial_store_def run_loop_def alloc_def wind_body_def
      py_mul_def dict_eq_def)

end
